theory Spec2Isabelle
  imports Complex_Main "HOL-Library.AList"
begin

section \<open>Task registry and executor (app/services/background_tasks.py)\<close>

text \<open>
  \<^verbatim>\<open>TaskStatus\<close> is the enumeration of the source. Task identifiers are the strings
  \<^verbatim>\<open>str(uuid.uuid4())\<close>; they are modelled as natural numbers drawn from a supply that
  never repeats. \<^verbatim>\<open>datetime.now()\<close> reads a clock that is part of the state.
\<close>

datatype TaskStatus = PENDING | RUNNING | COMPLETED | FAILED | CANCELLED

record 'r BackgroundTask =
  task_id :: nat
  name :: string
  status :: TaskStatus
  created_at :: nat
  started_at :: "nat option"
  completed_at :: "nat option"
  progress :: real
  result :: "'r option"
  error_message :: "string option"
  metadata :: "(string \<times> string) list"

text \<open>
  What the awaited unit of work does, as \<^verbatim>\<open>_execute_task\<close> tells the cases apart: it
  returns a value, it raises an exception of class \<^verbatim>\<open>Exception\<close> whose text
  \<^verbatim>\<open>str(e)\<close> is the string, \<^verbatim>\<open>asyncio.CancelledError\<close> is raised at the await, or it raises
  another exception that derives from \<^verbatim>\<open>BaseException\<close> only (\<^verbatim>\<open>GeneratorExit\<close>, the
  panic of an extension module), which neither \<^verbatim>\<open>except\<close> clause matches.
\<close>

datatype 'r outcome = Returns 'r | RaisesException string | RaisesCancelled | RaisesBaseException string

text \<open>
  The coroutine \<^verbatim>\<open>_execute_task\<close> wrapped in an \<^verbatim>\<open>asyncio.Task\<close>. It is suspended
  before its first step, inside \<^verbatim>\<open>async with self._semaphore\<close> waiting for a slot, or
  at \<^verbatim>\<open>await task_func(...)\<close>. \<open>Done\<close> is an asyncio task that ended without reaching
  the \<^verbatim>\<open>finally\<close> block, so that its entry stays in \<^verbatim>\<open>_running_tasks\<close>: it was
  cancelled before its first step (the body never runs), or the lookup
  \<^verbatim>\<open>self._tasks[task_id]\<close> before the \<^verbatim>\<open>try\<close> raised KeyError.
\<close>

datatype coro = NotStarted | AwaitSemaphore | AwaitWork | Done

record aio_task =
  pc :: coro
  must_cancel :: bool

record 'r BackgroundTaskService =
  tasks :: "(nat \<times> 'r BackgroundTask) list"
  running_tasks :: "(nat \<times> aio_task) list"
  semaphore :: nat
  cleanup_interval :: nat
  next_uuid :: nat
  clock :: nat

definition init_service :: "nat \<Rightarrow> 'r BackgroundTaskService" where
  "init_service max_concurrent_tasks =
     \<lparr>tasks = [], running_tasks = [], semaphore = max_concurrent_tasks,
      cleanup_interval = 3600, next_uuid = 0, clock = 0\<rparr>"

definition is_terminal :: "TaskStatus \<Rightarrow> bool" where
  "is_terminal st = (st = COMPLETED \<or> st = FAILED \<or> st = CANCELLED)"

definition create_task :: "string \<Rightarrow> 'r BackgroundTaskService \<Rightarrow> nat \<times> 'r BackgroundTaskService" where
  "create_task nm s =
     (let tid = next_uuid s;
          bg_task = \<lparr>task_id = tid, name = nm, status = PENDING, created_at = clock s,
                     started_at = None, completed_at = None, progress = 0, result = None,
                     error_message = None, metadata = []\<rparr>
      in (tid, s\<lparr>tasks := AList.update tid bg_task (tasks s),
                 running_tasks := AList.update tid \<lparr>pc = NotStarted, must_cancel = False\<rparr> (running_tasks s),
                 next_uuid := Suc tid\<rparr>))"

text \<open>
  The assignments to \<^verbatim>\<open>bg_task\<close> mutate the object the registry holds; if the registry
  has dropped the entry meanwhile, the registry does not see them (\<open>AList.map_entry\<close>
  changes an entry only where the key is present).
\<close>

definition set_running :: "nat \<Rightarrow> 'r BackgroundTask \<Rightarrow> 'r BackgroundTask" where
  "set_running now t = t\<lparr>status := RUNNING, started_at := Some now\<rparr>"

definition set_completed :: "nat \<Rightarrow> 'r \<Rightarrow> 'r BackgroundTask \<Rightarrow> 'r BackgroundTask" where
  "set_completed now r t = t\<lparr>status := COMPLETED, completed_at := Some now, progress := 100, result := Some r\<rparr>"

definition set_cancelled :: "nat \<Rightarrow> 'r BackgroundTask \<Rightarrow> 'r BackgroundTask" where
  "set_cancelled now t = t\<lparr>status := CANCELLED, completed_at := Some now\<rparr>"

definition set_failed :: "nat \<Rightarrow> string \<Rightarrow> 'r BackgroundTask \<Rightarrow> 'r BackgroundTask" where
  "set_failed now msg t = t\<lparr>status := FAILED, completed_at := Some now, error_message := Some msg\<rparr>"

definition finally_remove :: "nat \<Rightarrow> 'r BackgroundTaskService \<Rightarrow> 'r BackgroundTaskService" where
  "finally_remove tid s = s\<lparr>running_tasks := AList.delete tid (running_tasks s)\<rparr>"

definition enter_semaphore :: "nat \<Rightarrow> 'r BackgroundTaskService \<Rightarrow> 'r BackgroundTaskService" where
  "enter_semaphore tid s =
     s\<lparr>semaphore := semaphore s - 1,
       tasks := AList.map_entry tid (set_running (clock s)) (tasks s),
       running_tasks := AList.map_entry tid (\<lambda>a. a\<lparr>pc := AwaitWork\<rparr>) (running_tasks s)\<rparr>"

text \<open>
  \<open>execute_task_advance\<close>: the event loop resumes the coroutine of task \<open>tid\<close> while it
  is not yet inside the unit of work (lines 102 to 113 of the source, up to the await).
\<close>

definition execute_task_advance :: "nat \<Rightarrow> 'r BackgroundTaskService \<Rightarrow> 'r BackgroundTaskService" where
  "execute_task_advance tid s =
     (case map_of (running_tasks s) tid of
        None \<Rightarrow> s
      | Some a \<Rightarrow>
         (case pc a of
            NotStarted \<Rightarrow>
              if must_cancel a \<or> map_of (tasks s) tid = None
              then s\<lparr>running_tasks := AList.map_entry tid (\<lambda>a. a\<lparr>pc := Done\<rparr>) (running_tasks s)\<rparr>
              else if 0 < semaphore s then enter_semaphore tid s
              else s\<lparr>running_tasks := AList.map_entry tid (\<lambda>a. a\<lparr>pc := AwaitSemaphore\<rparr>) (running_tasks s)\<rparr>
          | AwaitSemaphore \<Rightarrow>
              if must_cancel a
              then finally_remove tid (s\<lparr>tasks := AList.map_entry tid (set_cancelled (clock s)) (tasks s)\<rparr>)
              else if 0 < semaphore s then enter_semaphore tid s
              else s
          | AwaitWork \<Rightarrow> s
          | Done \<Rightarrow> s))"

text \<open>
  \<open>execute_task_finish\<close>: the awaited unit of work of task \<open>tid\<close> ends with the given
  outcome (lines 113 to 137): the semaphore is released on leaving \<^verbatim>\<open>async with\<close>, the
  matching branch, if there is one, records the terminal state, and \<^verbatim>\<open>finally\<close> drops the
  entry of \<^verbatim>\<open>_running_tasks\<close>. An exception that no clause matches leaves the record as it
  is and leaves the coroutine: the first component is the text of that exception.
\<close>

definition execute_task_finish ::
  "nat \<Rightarrow> 'r outcome \<Rightarrow> 'r BackgroundTaskService \<Rightarrow> string option \<times> 'r BackgroundTaskService" where
  "execute_task_finish tid oc s =
     (case map_of (running_tasks s) tid of
        None \<Rightarrow> (None, s)
      | Some a \<Rightarrow>
         if pc a = AwaitWork then
           (let now = clock s;
                released = s\<lparr>semaphore := semaphore s + 1\<rparr>
            in case oc of
                 Returns r \<Rightarrow>
                   (None, finally_remove tid
                      (released\<lparr>tasks := AList.map_entry tid (set_completed now r) (tasks s)\<rparr>))
               | RaisesCancelled \<Rightarrow>
                   (None, finally_remove tid
                      (released\<lparr>tasks := AList.map_entry tid (set_cancelled now) (tasks s)\<rparr>))
               | RaisesException msg \<Rightarrow>
                   (None, finally_remove tid
                      (released\<lparr>tasks := AList.map_entry tid (set_failed now msg) (tasks s)\<rparr>))
               | RaisesBaseException msg \<Rightarrow> (Some msg, finally_remove tid released))
         else (None, s))"

definition get_task_status :: "nat \<Rightarrow> 'r BackgroundTaskService \<Rightarrow> 'r BackgroundTask option" where
  "get_task_status tid s = map_of (tasks s) tid"

definition get_all_tasks :: "bool \<Rightarrow> 'r BackgroundTaskService \<Rightarrow> (nat \<times> 'r BackgroundTask) list" where
  "get_all_tasks include_completed s =
     (if include_completed then tasks s
      else filter (\<lambda>(tid, t). \<not> is_terminal (status t)) (tasks s))"

definition cancel_task :: "nat \<Rightarrow> 'r BackgroundTaskService \<Rightarrow> bool \<times> 'r BackgroundTaskService" where
  "cancel_task tid s =
     (case map_of (running_tasks s) tid of
        None \<Rightarrow> (False, s)
      | Some a \<Rightarrow>
          if pc a \<noteq> Done
          then (True, s\<lparr>running_tasks := AList.map_entry tid (\<lambda>a. a\<lparr>must_cancel := True\<rparr>) (running_tasks s)\<rparr>)
          else (False, s))"

definition expired :: "'r BackgroundTaskService \<Rightarrow> 'r BackgroundTask \<Rightarrow> bool" where
  "expired s t =
     (is_terminal (status t) \<and>
      (case completed_at t of None \<Rightarrow> False
       | Some c \<Rightarrow> int (cleanup_interval s) < int (clock s) - int c))"

definition cleanup_completed_tasks :: "'r BackgroundTaskService \<Rightarrow> nat \<times> 'r BackgroundTaskService" where
  "cleanup_completed_tasks s =
     (let tasks_to_remove = map fst (filter (\<lambda>(tid, t). expired s t) (tasks s))
      in (length tasks_to_remove,
          s\<lparr>tasks := filter (\<lambda>(tid, t). tid \<notin> set tasks_to_remove) (tasks s)\<rparr>))"

text \<open>
  Everything that can happen to the registry: the calls of its interface, the event loop
  resuming a coroutine, a unit of work ending, and time passing.
\<close>

datatype 'r event =
    Create string
  | Advance nat
  | Finish nat "'r outcome"
  | CancelTask nat
  | Cleanup
  | Tick nat

fun step :: "'r event \<Rightarrow> 'r BackgroundTaskService \<Rightarrow> 'r BackgroundTaskService" where
  "step (Create nm) s = snd (create_task nm s)"
| "step (Advance tid) s = execute_task_advance tid s"
| "step (Finish tid oc) s = snd (execute_task_finish tid oc s)"
| "step (CancelTask tid) s = snd (cancel_task tid s)"
| "step Cleanup s = snd (cleanup_completed_tasks s)"
| "step (Tick d) s = s\<lparr>clock := clock s + d\<rparr>"

fun run :: "'r event list \<Rightarrow> 'r BackgroundTaskService \<Rightarrow> 'r BackgroundTaskService" where
  "run [] s = s"
| "run (e # es) s = run es (step e s)"

definition running_count :: "'r BackgroundTaskService \<Rightarrow> nat" where
  "running_count s = length (filter (\<lambda>(tid, t). status t = RUNNING) (tasks s))"

definition completed_at_iff_terminal :: "'r BackgroundTaskService \<Rightarrow> bool" where
  "completed_at_iff_terminal s =
     list_all (\<lambda>(tid, t). (completed_at t \<noteq> None) = is_terminal (status t)) (tasks s)"

definition status_of :: "nat \<Rightarrow> 'r BackgroundTaskService \<Rightarrow> TaskStatus option" where
  "status_of tid s = map_option status (get_task_status tid s)"


section \<open>Core utilities (app/core/utils.py)\<close>

type_synonym path = string
type_synonym bytes = "char list"

definition ascii_upper :: string where "ascii_upper = ''ABCDEFGHIJKLMNOPQRSTUVWXYZ''"
definition ascii_lower :: string where "ascii_lower = ''abcdefghijklmnopqrstuvwxyz''"
definition ascii_digits :: string where "ascii_digits = ''0123456789''"

definition lower_char :: "char \<Rightarrow> char" where
  "lower_char c = (case map_of (zip ascii_upper ascii_lower) c of Some d \<Rightarrow> d | None \<Rightarrow> c)"

definition lower :: "string \<Rightarrow> string" where
  "lower s = map lower_char s"

fun str_nat :: "nat \<Rightarrow> string" where
  "str_nat n = (if n < 10 then [ascii_digits ! n] else str_nat (n div 10) @ [ascii_digits ! (n mod 10)])"

declare str_nat.simps [simp del]

definition str_int :: "int \<Rightarrow> string" where
  "str_int i = (if i < 0 then CHR ''-'' # str_nat (nat (- i)) else str_nat (nat i))"

text \<open>\<^verbatim>\<open>s.split(sep)\<close> for a one-character separator: never empty, one more piece than separators.\<close>

fun split_on :: "char \<Rightarrow> string \<Rightarrow> string list" where
  "split_on sep [] = [[]]"
| "split_on sep (c # cs) =
     (if c = sep then [] # split_on sep cs
      else (case split_on sep cs of [] \<Rightarrow> [[c]] | p # ps \<Rightarrow> (c # p) # ps))"

text \<open>
  \<^verbatim>\<open>Path(file_path).name\<close> and \<^verbatim>\<open>.suffix\<close> of pathlib on POSIX: empty components and
  \<^verbatim>\<open>.\<close> components are dropped, the name is the last component left; the suffix starts at
  the last dot of the name unless that dot is the first or the last character.
\<close>

definition path_name :: "path \<Rightarrow> string" where
  "path_name p =
     (case filter (\<lambda>c. c \<noteq> [] \<and> c \<noteq> ''.'') (split_on CHR ''/'' p) of
        [] \<Rightarrow> []
      | parts \<Rightarrow> last parts)"

fun rfind :: "char \<Rightarrow> string \<Rightarrow> nat option" where
  "rfind x [] = None"
| "rfind x (c # cs) =
     (case rfind x cs of
        Some i \<Rightarrow> Some (Suc i)
      | None \<Rightarrow> if c = x then Some 0 else None)"

definition suffix_of :: "string \<Rightarrow> string" where
  "suffix_of nm =
     (case rfind CHR ''.'' nm of
        None \<Rightarrow> []
      | Some i \<Rightarrow> if 0 < i \<and> i + 1 < length nm then drop i nm else [])"

definition get_file_extension :: "path \<Rightarrow> string" where
  "get_file_extension file_path = lower (suffix_of (path_name file_path))"

definition text_extensions :: "string list" where
  "text_extensions =
     [''.py'', ''.js'', ''.ts'', ''.tsx'', ''.jsx'', ''.java'', ''.cpp'', ''.c'', ''.h'', ''.hpp'',
      ''.cs'', ''.php'', ''.rb'', ''.go'', ''.rs'', ''.kt'', ''.swift'', ''.scala'', ''.clj'',
      ''.html'', ''.css'', ''.scss'', ''.sass'', ''.less'', ''.xml'', ''.yaml'', ''.yml'',
      ''.json'', ''.toml'', ''.ini'', ''.cfg'', ''.conf'', ''.txt'', ''.md'', ''.rst'',
      ''.sql'', ''.sh'', ''.bash'', ''.zsh'', ''.ps1'', ''.bat'', ''.dockerfile'', ''.r'',
      ''.matlab'', ''.m'', ''.pl'', ''.lua'', ''.vim'', ''.el'', ''.hs'', ''.ml'', ''.fs'']"

definition is_text_file :: "path \<Rightarrow> bool" where
  "is_text_file file_path = (get_file_extension file_path \<in> set text_extensions)"

text \<open>The characters of the class \<^verbatim>\<open>[<>:"/\\|?*]\<close>; \<open>CHR 0x22\<close> is the double quote, \<open>CHR 0x5C\<close> the backslash.\<close>

definition unsafe_chars :: "char list" where
  "unsafe_chars = [CHR ''<'', CHR ''>'', CHR '':'', CHR 0x22, CHR ''/'', CHR 0x5C, CHR ''|'', CHR ''?'', CHR ''*'']"

definition safe_filename :: "string \<Rightarrow> string" where
  "safe_filename filename =
     (let replaced = map (\<lambda>c. if c \<in> set unsafe_chars then CHR ''_'' else c) filename;
          strip_set = set ''. '';
          safe_name = rev (dropWhile (\<lambda>c. c \<in> strip_set) (rev (dropWhile (\<lambda>c. c \<in> strip_set) replaced)))
      in if safe_name = [] then ''unnamed_file'' else safe_name)"


text \<open>\<^verbatim>\<open>os.path.join\<close> of two components, \<^verbatim>\<open>os.path.dirname\<close> and \<^verbatim>\<open>os.path.basename\<close> (posixpath).\<close>

definition path_join :: "path \<Rightarrow> path \<Rightarrow> path" where
  "path_join a b =
     (if b \<noteq> [] \<and> hd b = CHR ''/'' then b
      else if a = [] \<or> last a = CHR ''/'' then a @ b
      else a @ ''/'' @ b)"

definition rstrip_slash :: "path \<Rightarrow> path" where
  "rstrip_slash p = rev (dropWhile (\<lambda>c. c = CHR ''/'') (rev p))"

definition dirname :: "path \<Rightarrow> path" where
  "dirname p =
     (let hd_part = (case rfind CHR ''/'' p of None \<Rightarrow> [] | Some i \<Rightarrow> take (Suc i) p)
      in if hd_part \<noteq> [] \<and> \<not> list_all (\<lambda>c. c = CHR ''/'') hd_part then rstrip_slash hd_part else hd_part)"

definition basename :: "path \<Rightarrow> path" where
  "basename p = (case rfind CHR ''/'' p of None \<Rightarrow> p | Some i \<Rightarrow> drop (Suc i) p)"

subsection \<open>The file system and the other collaborators\<close>

text \<open>
  The file system is a finite map from paths to nodes; a path names a directory by its
  own string, and the entries below a directory are those whose path extends it by
  \<^verbatim>\<open>/\<close>. Opening a file for writing fails at the paths listed in \<open>read_only\<close> (and at a
  directory); this is the failure the source catches around its writes. Other failures
  of the operating system (of \<^verbatim>\<open>mkdir\<close>, of \<^verbatim>\<open>rmtree\<close> on a directory) are not modelled; \<open>strerror\<close> is the text of
  the \<^verbatim>\<open>OSError\<close> raised at a path.
  \<open>uuid_draws\<close> counts the calls of \<^verbatim>\<open>uuid4()\<close> made for file and directory names.
\<close>

datatype node = File bytes | Dir

record world =
  fs :: "(path \<times> node) list"
  read_only :: "path list"
  strerror :: "path \<Rightarrow> string"
  uuid_draws :: nat

text \<open>
  Exceptions: FastAPI's \<^verbatim>\<open>HTTPException(status_code, detail)\<close>, the rejection of a request
  body by its pydantic model (answered 422 before the handler runs), \<^verbatim>\<open>RuntimeError\<close> with
  its text, and an \<^verbatim>\<open>OSError\<close> with the text the operating system gives it.
\<close>

datatype exn =
    HTTPException nat string
  | RequestValidationError
  | RuntimeError string
  | OSError string

definition str_exn :: "exn \<Rightarrow> string" where
  "str_exn ex =
     (case ex of
        HTTPException code detail \<Rightarrow> str_nat code @ '': '' @ detail
      | RequestValidationError \<Rightarrow> []
      | RuntimeError msg \<Rightarrow> msg
      | OSError msg \<Rightarrow> msg)"

datatype meta_value = MStr string | MFloat real

record Document =
  page_content :: string
  doc_metadata :: "(string \<times> meta_value) list"

datatype Language =
    PYTHON | JS | JAVA | CPP | CSHARP | PHP | RUBY | GO | RUST | KOTLIN | SWIFT | SCALA
  | HTML | MARKDOWN | LATEX | SOL

text \<open>
  What the code calls and does not define: the identifiers \<^verbatim>\<open>uuid4().hex\<close> in the order
  they are drawn, \<^verbatim>\<open>UnstructuredFileLoader(path).load()\<close> on a file's content (\<open>Inl\<close> is
  the text of the exception it raises), \<^verbatim>\<open>RecursiveCharacterTextSplitter.from_language(...)
  .split_documents\<close>, the vector store's \<^verbatim>\<open>store_documents\<close> (it catches its own exceptions
  and answers a flag), \<^verbatim>\<open>Repo.clone_from\<close> as \<^verbatim>\<open>_clone_repository_async\<close> wraps it (every
  exception becomes \<open>False\<close>), the size the operating system reports for a directory, the
  readings of \<^verbatim>\<open>time.time()\<close>, and the two URL parsers: \<^verbatim>\<open>urllib.parse.urlparse\<close>, of
  whose result the code reads the scheme and the host name (\<open>None\<close>: it raises), and the
  parser of pydantic's URL types, which gives the scheme and the normalised text of a URL
  (\<open>None\<close>: the string is refused).
\<close>

record env =
  uuid4_hex :: "nat \<Rightarrow> string"
  loader :: "path \<Rightarrow> bytes \<Rightarrow> string + Document list"
  split_documents :: "Language \<Rightarrow> int \<Rightarrow> int \<Rightarrow> Document list \<Rightarrow> string + Document list"
  store_documents :: "Document list \<Rightarrow> bool"
  clone_from :: "string \<Rightarrow> path \<Rightarrow> world \<Rightarrow> bool \<times> world"
  urlparse :: "string \<Rightarrow> (string \<times> string option) option"
  pydantic_url :: "string \<Rightarrow> (string \<times> string) option"
  dir_size :: nat
  time_start :: real
  time_end :: real
  time_chunk :: real

record Settings =
  chunk_size :: int
  chunk_overlap :: int
  max_concurrent_files :: int
  max_file_size_mb :: int
  temp_repo_dir :: path
  temp_files_dir :: path

definition settings :: Settings where
  "settings = \<lparr>chunk_size = 2000, chunk_overlap = 200, max_concurrent_files = 5,
               max_file_size_mb = 100, temp_repo_dir = ''./temp_repo'', temp_files_dir = ''./temp_files''\<rparr>"

definition path_exists :: "world \<Rightarrow> path \<Rightarrow> bool" where
  "path_exists w p = (map_of (fs w) p \<noteq> None)"

definition is_dir :: "world \<Rightarrow> path \<Rightarrow> bool" where
  "is_dir w p = (map_of (fs w) p = Some Dir)"

text \<open>
  \<^verbatim>\<open>os.path.getsize\<close>: the size of what is at the path; \<^verbatim>\<open>OSError\<close> where nothing is there;
  \<^verbatim>\<open>ValueError\<close> (embedded null byte) for a path with a NUL byte, which names no file.
  \<^verbatim>\<open>validate_file_size\<close> catches \<^verbatim>\<open>OSError\<close> only: \<open>Inl\<close> is the text of the exception that
  leaves it.
\<close>

datatype stat_result = Size nat | StatOSError | StatValueError string

definition getsize :: "env \<Rightarrow> world \<Rightarrow> path \<Rightarrow> stat_result" where
  "getsize e w p =
     (case map_of (fs w) p of
        Some (File c) \<Rightarrow> Size (length c)
      | Some Dir \<Rightarrow> Size (dir_size e)
      | None \<Rightarrow> if CHR 0x00 \<in> set p then StatValueError ''embedded null byte'' else StatOSError)"

definition validate_file_size :: "env \<Rightarrow> world \<Rightarrow> path \<Rightarrow> int \<Rightarrow> string + bool" where
  "validate_file_size e w file_path max_size_mb =
     (case getsize e w file_path of
        Size file_size \<Rightarrow> Inr (int file_size \<le> max_size_mb * 1024 * 1024)
      | StatOSError \<Rightarrow> Inr False
      | StatValueError msg \<Rightarrow> Inl msg)"

definition ensure_directory :: "path \<Rightarrow> world \<Rightarrow> world" where
  "ensure_directory directory w =
     (if \<not> path_exists w directory then w\<lparr>fs := AList.update directory Dir (fs w)\<rparr> else w)"

definition below :: "path \<Rightarrow> path \<Rightarrow> bool" where
  "below directory p = (take (Suc (length directory)) p = directory @ ''/'')"

definition rmtree :: "path \<Rightarrow> world \<Rightarrow> world" where
  "rmtree directory w = w\<lparr>fs := filter (\<lambda>(p, n). p \<noteq> directory \<and> \<not> below directory p) (fs w)\<rparr>"

definition cleanup_directory :: "path \<Rightarrow> world \<Rightarrow> exn option \<times> world" where
  "cleanup_directory directory w =
     (case map_of (fs w) directory of
        None \<Rightarrow> (None, w)
      | Some Dir \<Rightarrow> (None, rmtree directory w)
      | Some (File c) \<Rightarrow> (Some (OSError (strerror w directory)), w))"

text \<open>A \<^verbatim>\<open>finally\<close> block that awaits \<^verbatim>\<open>cleanup_directory\<close>: an exception raised there replaces
  the outcome of the block it follows.\<close>

definition finally_cleanup :: "path \<Rightarrow> (exn + 'a) \<times> world \<Rightarrow> (exn + 'a) \<times> world" where
  "finally_cleanup directory rw =
     (case cleanup_directory directory (snd rw) of
        (None, w') \<Rightarrow> (fst rw, w')
      | (Some e, w') \<Rightarrow> (Inl e, w'))"

text \<open>\<^verbatim>\<open>async with aiofiles.open(dest_path, "wb") as f: await f.write(content)\<close>; the flag
  tells whether it went through. \<open>remove_partial\<close> is the handler's
  \<^verbatim>\<open>if os.path.exists(dest_path): os.remove(dest_path)\<close>, whose own failure is swallowed.\<close>

definition write_file :: "path \<Rightarrow> bytes \<Rightarrow> world \<Rightarrow> bool \<times> world" where
  "write_file dest_path content w =
     (if dest_path \<in> set (read_only w) \<or> is_dir w dest_path then (False, w)
      else (True, w\<lparr>fs := AList.update dest_path (File content) (fs w)\<rparr>))"

definition remove_partial :: "path \<Rightarrow> world \<Rightarrow> world" where
  "remove_partial dest_path w =
     (case map_of (fs w) dest_path of
        Some (File c) \<Rightarrow> w\<lparr>fs := AList.delete dest_path (fs w)\<rparr>
      | _ \<Rightarrow> w)"

definition draw_uuid :: "env \<Rightarrow> world \<Rightarrow> string \<times> world" where
  "draw_uuid e w = (uuid4_hex e (uuid_draws w), w\<lparr>uuid_draws := Suc (uuid_draws w)\<rparr>)"

section \<open>Per-file processor and batch runner (app/services/document_processor.py)\<close>

record ProcessingResult =
  pr_success :: bool
  documents_processed :: nat
  documents_failed :: nat
  processing_time :: real
  pr_error_message :: "string option"

record FileProcessingResult =
  file_path :: path
  success :: bool
  documents :: "Document list"
  fr_error_message :: "string option"

definition language_map :: "(string \<times> Language) list" where
  "language_map =
     [(''py'', PYTHON), (''js'', JS), (''ts'', JS), (''jsx'', JS), (''tsx'', JS), (''java'', JAVA),
      (''cpp'', CPP), (''c'', CPP), (''cs'', CSHARP), (''php'', PHP), (''rb'', RUBY), (''go'', GO),
      (''rs'', RUST), (''kt'', KOTLIN), (''swift'', SWIFT), (''scala'', SCALA), (''html'', HTML),
      (''md'', MARKDOWN), (''tex'', LATEX), (''sol'', SOL)]"

definition get_language_from_extension :: "path \<Rightarrow> Language" where
  "get_language_from_extension fp =
     (let extension = (if CHR ''.'' \<in> set fp then last (split_on CHR ''.'' (lower fp)) else [])
      in case map_of language_map extension of Some l \<Rightarrow> l | None \<Rightarrow> PYTHON)"

definition create_text_splitter :: "Settings \<Rightarrow> env \<Rightarrow> path \<Rightarrow> Document list \<Rightarrow> string + Document list" where
  "create_text_splitter st e fp =
     split_documents e (get_language_from_extension fp) (chunk_size st) (chunk_overlap st)"

definition load_document :: "env \<Rightarrow> world \<Rightarrow> path \<Rightarrow> Document list" where
  "load_document e w fp =
     (case map_of (fs w) fp of
        Some (File c) \<Rightarrow> (case loader e fp c of Inl err \<Rightarrow> [] | Inr docs \<Rightarrow> docs)
      | _ \<Rightarrow> [])"

definition add_file_metadata :: "env \<Rightarrow> path \<Rightarrow> Document \<Rightarrow> Document" where
  "add_file_metadata e fp doc =
     doc\<lparr>doc_metadata :=
           AList.update ''processing_timestamp'' (MFloat (time_chunk e))
             (AList.update ''file_type''
                (MStr (if CHR ''.'' \<in> set fp then last (split_on CHR ''.'' fp) else ''unknown''))
                (AList.update ''source_file'' (MStr fp) (doc_metadata doc)))\<rparr>"

text \<open>The body of the \<^verbatim>\<open>try\<close> block of \<^verbatim>\<open>_process_single_file_async\<close>: \<open>Inl\<close> is the text of
  an exception raised inside it, \<open>Inr\<close> the result returned from it.\<close>

definition process_single_file_try :: "Settings \<Rightarrow> env \<Rightarrow> world \<Rightarrow> path \<Rightarrow> string + FileProcessingResult" where
  "process_single_file_try st e w fp =
     (if \<not> is_text_file fp then
        Inr \<lparr>file_path = fp, success = False, documents = [], fr_error_message = Some ''Not a text file''\<rparr>
      else
        (case validate_file_size e w fp (max_file_size_mb st) of
           Inl err \<Rightarrow> Inl err
         | Inr within_limit \<Rightarrow>
             if \<not> within_limit then
               Inr \<lparr>file_path = fp, success = False, documents = [],
                    fr_error_message = Some (''File exceeds '' @ str_int (max_file_size_mb st) @ ''MB limit'')\<rparr>
             else
               (let docs = load_document e w fp in
                if docs = [] then
                  Inr \<lparr>file_path = fp, success = False, documents = [],
                       fr_error_message = Some ''No content loaded from file''\<rparr>
                else
                  (case create_text_splitter st e fp docs of
                     Inl err \<Rightarrow> Inl err
                   | Inr split_docs \<Rightarrow>
                       Inr \<lparr>file_path = fp, success = True,
                            documents = map (add_file_metadata e fp) split_docs, fr_error_message = None\<rparr>))))"

definition process_single_file_async :: "Settings \<Rightarrow> env \<Rightarrow> world \<Rightarrow> path \<Rightarrow> FileProcessingResult" where
  "process_single_file_async st e w fp =
     (case process_single_file_try st e w fp of
        Inr r \<Rightarrow> r
      | Inl err \<Rightarrow> \<lparr>file_path = fp, success = False, documents = [], fr_error_message = Some err\<rparr>)"

text \<open>What \<^verbatim>\<open>asyncio.gather(..., return_exceptions=True)\<close> hands to the collecting loop: a
  result, or an exception object.\<close>

datatype gathered = GResult FileProcessingResult | GDocumentProcessingError string | GException string

record tally =
  all_documents :: "Document list"
  successful_files :: nat
  failed_files :: nat

fun collect_results :: "gathered list \<Rightarrow> tally \<Rightarrow> tally" where
  "collect_results [] t = t"
| "collect_results (GDocumentProcessingError m # rs) t =
     collect_results rs (t\<lparr>failed_files := failed_files t + 1\<rparr>)"
| "collect_results (GResult r # rs) t =
     (if success r
      then collect_results rs (t\<lparr>all_documents := all_documents t @ documents r,
                                  successful_files := successful_files t + 1\<rparr>)
      else collect_results rs (t\<lparr>failed_files := failed_files t + 1\<rparr>))"
| "collect_results (GException m # rs) t =
     collect_results rs (t\<lparr>failed_files := failed_files t + 1\<rparr>)"

definition gather_files :: "Settings \<Rightarrow> env \<Rightarrow> world \<Rightarrow> path list \<Rightarrow> gathered list" where
  "gather_files st e w file_paths = map (\<lambda>fp. GResult (process_single_file_async st e w fp)) file_paths"

definition batch_tally :: "Settings \<Rightarrow> env \<Rightarrow> world \<Rightarrow> path list \<Rightarrow> tally" where
  "batch_tally st e w file_paths =
     collect_results (gather_files st e w file_paths)
       \<lparr>all_documents = [], successful_files = 0, failed_files = 0\<rparr>"

definition process_files_concurrent :: "Settings \<Rightarrow> env \<Rightarrow> world \<Rightarrow> path list \<Rightarrow> ProcessingResult" where
  "process_files_concurrent st e w file_paths =
     (if file_paths = [] then
        \<lparr>pr_success = False, documents_processed = 0, documents_failed = 0, processing_time = 0,
         pr_error_message = Some ''No files provided''\<rparr>
      else
        (let t = batch_tally st e w file_paths;
             storage_success = (if all_documents t \<noteq> [] then store_documents e (all_documents t) else True)
         in \<lparr>pr_success = (storage_success \<and> 0 < successful_files t),
             documents_processed = length (all_documents t),
             documents_failed = failed_files t,
             processing_time = time_end e - time_start e,
             pr_error_message = (if storage_success then None
                                 else Some ''Failed to store documents in vector database'')\<rparr>))"


section \<open>File processing service (app/services/file_processor.py)\<close>

record FileProcessingStats =
  total_files :: nat
  processed_files :: nat
  skipped_files :: nat
  failed_files_stat :: nat
  processing_time_seconds :: real

text \<open>The loop that saves the items under the per-task directory: a write that fails is
  logged, its partial file removed, and the loop goes on.\<close>

fun save_items :: "path \<Rightarrow> (string \<times> bytes) list \<Rightarrow> path list \<times> world \<Rightarrow> path list \<times> world" where
  "save_items task_temp_dir [] acc = acc"
| "save_items task_temp_dir ((filename, content) # items) (saved_paths, w) =
     (let safe_name = safe_filename filename;
          dest_path = path_join task_temp_dir safe_name;
          dest_dir = dirname dest_path;
          w1 = (if dest_dir \<noteq> [] \<and> \<not> path_exists w dest_dir then ensure_directory dest_dir w else w)
      in case write_file dest_path content w1 of
           (True, w2) \<Rightarrow> save_items task_temp_dir items (saved_paths @ [dest_path], w2)
         | (False, w2) \<Rightarrow> save_items task_temp_dir items (saved_paths, remove_partial dest_path w2))"

definition process_uploaded_file_paths ::
  "Settings \<Rightarrow> env \<Rightarrow> path list \<Rightarrow> world \<Rightarrow> (exn + FileProcessingStats) \<times> world" where
  "process_uploaded_file_paths st e paths w =
     (if paths = [] then (Inl (HTTPException 400 ''No file paths provided''), w)
      else
        (let processing_result = process_files_concurrent st e w paths
         in (Inr \<lparr>total_files = length paths,
                  processed_files = documents_processed processing_result,
                  skipped_files = 0,
                  failed_files_stat = documents_failed processing_result,
                  processing_time_seconds = processing_time processing_result\<rparr>, w)))"

definition process_uploaded_file_bytes ::
  "Settings \<Rightarrow> env \<Rightarrow> (string \<times> bytes) list \<Rightarrow> world \<Rightarrow> (exn + FileProcessingStats) \<times> world" where
  "process_uploaded_file_bytes st e items w =
     (if items = [] then (Inl (HTTPException 400 ''No file data provided''), w)
      else
        (let (hex, w0) = draw_uuid e w;
             task_temp_dir = path_join (temp_files_dir st) (''upload_'' @ hex);
             w1 = ensure_directory task_temp_dir w0;
             (saved_paths, w2) = save_items task_temp_dir items ([], w1)
         in finally_cleanup task_temp_dir
              (if saved_paths = [] then (Inl (HTTPException 400 ''No files saved for processing''), w2)
               else
                 (let processing_result = process_files_concurrent st e w2 saved_paths
                  in (Inr \<lparr>total_files = length items,
                           processed_files = documents_processed processing_result,
                           skipped_files = 0,
                           failed_files_stat = documents_failed processing_result,
                           processing_time_seconds = processing_time processing_result\<rparr>, w2)))))"

section \<open>Upload endpoint and its background worker (app/api/v1/endpoints/data_processing.py)\<close>

definition IN_MEMORY_LIMIT_BYTES :: nat where
  "IN_MEMORY_LIMIT_BYTES = 5 * 1024 * 1024"

text \<open>An \<^verbatim>\<open>UploadFile\<close>: its filename, if any, and what \<^verbatim>\<open>await f.read()\<close> gives (\<open>Inl\<close>: it
  raises).\<close>

record UploadFile =
  filename :: "string option"
  read_content :: "string + bytes"

record routed =
  items_in_memory :: "(string \<times> bytes) list"
  saved_paths :: "path list"
  task_temp_dir :: "path option"

text \<open>One turn of the loop \<^verbatim>\<open>for f in files\<close> of \<^verbatim>\<open>process_uploaded_files\<close>.\<close>

definition route_item :: "Settings \<Rightarrow> env \<Rightarrow> UploadFile \<Rightarrow> routed \<times> world \<Rightarrow> routed \<times> world" where
  "route_item st e f rw =
     (let r = fst rw; w = snd rw in
      case read_content f of
        Inl exc \<Rightarrow> (r, w)
      | Inr content \<Rightarrow>
          if content = [] then (r, w)
          else
            (let (raw_name, w0) =
                   (case filename f of
                      None \<Rightarrow> (let (hex, w') = draw_uuid e w in (''upload_'' @ hex, w'))
                    | Some fname \<Rightarrow>
                        if fname = [] then (let (hex, w') = draw_uuid e w in (''upload_'' @ hex, w'))
                        else (fname, w));
                 fname = safe_filename raw_name
             in if length content \<le> IN_MEMORY_LIMIT_BYTES
                then (r\<lparr>items_in_memory := items_in_memory r @ [(fname, content)]\<rparr>, w0)
                else
                  (let (tmp_dir, w1) =
                         (case task_temp_dir r of
                            Some d \<Rightarrow> (d, w0)
                          | None \<Rightarrow>
                              (let (hex, w') = draw_uuid e w0;
                                   d = path_join (temp_files_dir st) (''upload_'' @ hex)
                               in (d, ensure_directory d w')));
                       dest_path = path_join tmp_dir fname;
                       dest_dir = dirname dest_path;
                       w2 = (if dest_dir \<noteq> [] \<and> \<not> path_exists w1 dest_dir
                             then ensure_directory dest_dir w1 else w1)
                   in case write_file dest_path content w2 of
                        (True, w3) \<Rightarrow>
                          (r\<lparr>saved_paths := saved_paths r @ [dest_path], task_temp_dir := Some tmp_dir\<rparr>, w3)
                      | (False, w3) \<Rightarrow>
                          (r\<lparr>task_temp_dir := Some tmp_dir\<rparr>, remove_partial dest_path w3))))"

fun route_loop :: "Settings \<Rightarrow> env \<Rightarrow> UploadFile list \<Rightarrow> routed \<times> world \<Rightarrow> routed \<times> world" where
  "route_loop st e [] rw = rw"
| "route_loop st e (f # files) rw = route_loop st e files (route_item st e f rw)"

definition route_uploads :: "Settings \<Rightarrow> env \<Rightarrow> UploadFile list \<Rightarrow> world \<Rightarrow> routed \<times> world" where
  "route_uploads st e files w =
     route_loop st e files (\<lparr>items_in_memory = [], saved_paths = [], task_temp_dir = None\<rparr>, w)"

text \<open>
  The file processor as \<^verbatim>\<open>_bg_worker\<close> sees it: \<^verbatim>\<open>hasattr(file_proc, ...)\<close> decides which
  methods it may call. A method changes the file system and returns statistics or raises.
\<close>

record file_proc =
  fp_bytes :: "((string \<times> bytes) list \<Rightarrow> world \<Rightarrow> (exn + FileProcessingStats) \<times> world) option"
  fp_paths :: "(path list \<Rightarrow> world \<Rightarrow> (exn + FileProcessingStats) \<times> world) option"

definition file_processor :: "Settings \<Rightarrow> env \<Rightarrow> file_proc" where
  "file_processor st e =
     \<lparr>fp_bytes = Some (process_uploaded_file_bytes st e),
      fp_paths = Some (process_uploaded_file_paths st e)\<rparr>"

definition raised :: "(exn + 'a) \<times> world \<Rightarrow> exn option \<times> world" where
  "raised rw = (case fst rw of Inl ex \<Rightarrow> (Some ex, snd rw) | Inr v \<Rightarrow> (None, snd rw))"

text \<open>The fallback of the worker writes the in-memory items itself; here a failed write is
  not caught and ends the loop.\<close>

fun write_all :: "path \<Rightarrow> (string \<times> bytes) list \<Rightarrow> path list \<Rightarrow> world \<Rightarrow> (exn + path list) \<times> world" where
  "write_all fallback_dir [] acc w = (Inr acc, w)"
| "write_all fallback_dir ((nm, data) # items) acc w =
     (let p = path_join fallback_dir nm in
      case write_file p data w of
        (True, w') \<Rightarrow> write_all fallback_dir items (acc @ [p]) w'
      | (False, w') \<Rightarrow> (Inl (OSError (strerror w' p)), w'))"

fun read_all :: "path list \<Rightarrow> (string \<times> bytes) list \<Rightarrow> world \<Rightarrow> exn + (string \<times> bytes) list" where
  "read_all [] acc w = Inr acc"
| "read_all (p # paths) acc w =
     (case map_of (fs w) p of
        Some (File data) \<Rightarrow> read_all paths (acc @ [(basename p, data)]) w
      | _ \<Rightarrow> Inl (OSError (strerror w p)))"

definition bg_worker_items ::
  "file_proc \<Rightarrow> Settings \<Rightarrow> env \<Rightarrow> (string \<times> bytes) list \<Rightarrow> path option \<Rightarrow> world \<Rightarrow> exn option \<times> world" where
  "bg_worker_items fp st e items work_dir w =
     (if items = [] then (None, w)
      else case fp_bytes fp of
        Some process_bytes \<Rightarrow> raised (process_bytes items w)
      | None \<Rightarrow>
          (let (fallback_dir, w0) =
                 (case work_dir of
                    Some d \<Rightarrow>
                      if d \<noteq> [] then (d, w)
                      else (let (hex, w') = draw_uuid e w
                            in (path_join (temp_files_dir st) (''upload_fallback_'' @ hex), w'))
                  | None \<Rightarrow>
                      (let (hex, w') = draw_uuid e w
                       in (path_join (temp_files_dir st) (''upload_fallback_'' @ hex), w')));
               w1 = ensure_directory fallback_dir w0;
               body = (case write_all fallback_dir items [] w1 of
                         (Inl ex, w2) \<Rightarrow> (Some ex, w2)
                       | (Inr fallback_paths, w2) \<Rightarrow>
                           (case fp_paths fp of
                              Some process_paths \<Rightarrow> raised (process_paths fallback_paths w2)
                            | None \<Rightarrow> (Some (RuntimeError ''file processor missing required methods''), w2)))
           in if fallback_dir \<noteq> []
              then (case cleanup_directory fallback_dir (snd body) of
                      (None, w3) \<Rightarrow> (fst body, w3)
                    | (Some ex, w3) \<Rightarrow> (Some ex, w3))
              else body))"

definition bg_worker_paths :: "file_proc \<Rightarrow> path list \<Rightarrow> world \<Rightarrow> exn option \<times> world" where
  "bg_worker_paths fp paths w =
     (if paths = [] then (None, w)
      else case fp_paths fp of
        Some process_paths \<Rightarrow> raised (process_paths paths w)
      | None \<Rightarrow>
          (case fp_bytes fp of
             Some process_bytes \<Rightarrow>
               (case read_all paths [] w of
                  Inl ex \<Rightarrow> (Some ex, w)
                | Inr tmp_items \<Rightarrow> raised (process_bytes tmp_items w))
           | None \<Rightarrow> (Some (RuntimeError ''file processor missing required methods''), w)))"

text \<open>
  \<^verbatim>\<open>_bg_worker\<close>: the exception that leaves it, if any, and the file system it leaves.
  \<open>bg_worker_try\<close> is the outer \<^verbatim>\<open>try\<close> block, up to the point where its \<^verbatim>\<open>finally\<close> clause
  starts; \<open>bg_worker\<close> is the whole function.
\<close>

definition bg_worker_try ::
  "file_proc \<Rightarrow> Settings \<Rightarrow> env \<Rightarrow> (string \<times> bytes) list \<Rightarrow> path list \<Rightarrow> path option \<Rightarrow> world
     \<Rightarrow> exn option \<times> world" where
  "bg_worker_try fp st e items paths work_dir w =
     (let r1 = bg_worker_items fp st e items work_dir w
      in case fst r1 of None \<Rightarrow> bg_worker_paths fp paths (snd r1) | Some ex \<Rightarrow> r1)"

definition bg_worker ::
  "file_proc \<Rightarrow> Settings \<Rightarrow> env \<Rightarrow> (string \<times> bytes) list \<Rightarrow> path list \<Rightarrow> path option \<Rightarrow> world
     \<Rightarrow> exn option \<times> world" where
  "bg_worker fp st e items paths work_dir w =
     (let r2 = bg_worker_try fp st e items paths work_dir w
      in case work_dir of
           None \<Rightarrow> r2
         | Some d \<Rightarrow>
             if d \<noteq> []
             then (case cleanup_directory d (snd r2) of
                     (None, w') \<Rightarrow> (fst r2, w')
                   | (Some ex, w') \<Rightarrow> (Some ex, w'))
             else r2)"


section \<open>Repository service (app/services/repository.py)\<close>

text \<open>
  \<^verbatim>\<open>_validate_git_url\<close>. The parse of the URL is \<^verbatim>\<open>urlparse\<close> of the environment: the scheme
  and the host name of the parsed URL, the host name \<open>None\<close> where the URL has none; a
  \<^verbatim>\<open>ValueError\<close> raised by the parse or by the reading of the host name is caught by the
  \<^verbatim>\<open>except\<close> clause and makes the answer \<open>False\<close>. \<open>contains sub s\<close> is Python's \<^verbatim>\<open>sub in s\<close>.
\<close>

fun contains :: "string \<Rightarrow> string \<Rightarrow> bool" where
  "contains sub [] = (sub = [])"
| "contains sub (c # cs) = (take (length sub) (c # cs) = sub \<or> contains sub cs)"

definition valid_schemes :: "string list" where
  "valid_schemes = [''http'', ''https'', ''git'', ''ssh'']"

definition valid_hosts :: "string list" where
  "valid_hosts = [''github.com'', ''gitlab.com'', ''bitbucket.org'', ''dev.azure.com'', ''visualstudio.com'']"

definition validate_git_url :: "env \<Rightarrow> string \<Rightarrow> bool" where
  "validate_git_url e url =
     (case urlparse e url of
        None \<Rightarrow> False
      | Some (scheme, hostname) \<Rightarrow>
          if scheme \<notin> set valid_schemes then False
          else (case hostname of
                  Some host \<Rightarrow>
                    if host \<noteq> [] \<and> list_ex (\<lambda>h. contains h host) valid_hosts then True
                    else if host \<noteq> [] then True
                    else False
                | None \<Rightarrow> False))"

text \<open>
  \<^verbatim>\<open>process_repository\<close> of the service. \<^verbatim>\<open>file_processor.process_directory_files\<close>, to which
  it hands the cloned tree, is the parameter \<open>process_directory_files\<close>: it returns
  statistics or raises, and may change the file system. The clone lock lets one call at a
  time through; a call is modelled from its entry to its exit. \<open>process_repository_try\<close> is
  the \<^verbatim>\<open>try\<close> block with its two \<^verbatim>\<open>except\<close> clauses, up to the point where the \<^verbatim>\<open>finally\<close>
  clause starts; \<open>process_repository\<close> is the whole method.
\<close>

definition process_repository_try ::
  "Settings \<Rightarrow> env \<Rightarrow> (path \<Rightarrow> world \<Rightarrow> (exn + FileProcessingStats) \<times> world) \<Rightarrow> string \<Rightarrow> world
     \<Rightarrow> (exn + FileProcessingStats) \<times> world" where
  "process_repository_try st e process_directory_files repo_url w =
        (let temp_repo = temp_repo_dir st;
             body =
               (case cleanup_directory temp_repo w of
                  (Some ex, w1) \<Rightarrow> (Inl ex, w1)
                | (None, w1) \<Rightarrow>
                    (let w2 = ensure_directory (dirname temp_repo) w1;
                         (clone_success, w3) = clone_from e repo_url temp_repo w2
                     in if \<not> clone_success
                        then (Inl (HTTPException 400
                                ''Failed to clone repository. Please check the URL and access permissions.''), w3)
                        else process_directory_files temp_repo w3));
             handled =
               (case fst body of
                  Inl (HTTPException code detail) \<Rightarrow> body
                | Inl ex \<Rightarrow> (Inl (HTTPException 500 (''Repository processing failed: '' @ str_exn ex)), snd body)
                | Inr stats \<Rightarrow> body)
         in handled)"

definition process_repository ::
  "Settings \<Rightarrow> env \<Rightarrow> (path \<Rightarrow> world \<Rightarrow> (exn + FileProcessingStats) \<times> world) \<Rightarrow> string \<Rightarrow> world
     \<Rightarrow> (exn + FileProcessingStats) \<times> world" where
  "process_repository st e process_directory_files repo_url w =
     (if \<not> validate_git_url e repo_url then (Inl (HTTPException 400 ''Invalid Git repository URL''), w)
      else finally_cleanup (temp_repo_dir st)
             (process_repository_try st e process_directory_files repo_url w))"

section \<open>Submission endpoints (app/api/v1/endpoints/data_processing.py)\<close>

record accepted =
  message :: string
  accepted_task_id :: nat
  status_url :: string

text \<open>
  The handler of \<^verbatim>\<open>/process-repo\<close> (lines 21 to 35): it creates the task, named after the URL
  of the body, and answers with the task's id. It makes no check of its own.
\<close>

definition process_repository_handler ::
  "string \<Rightarrow> 'r BackgroundTaskService \<Rightarrow> accepted \<times> 'r BackgroundTaskService" where
  "process_repository_handler url s =
     (let (tid, s') = create_task (''Processing repository: '' @ url) s
      in (\<lparr>message = ''Repository processing started in the background.'',
           accepted_task_id = tid,
           status_url = ''/api/v1/tasks/'' @ str_nat tid\<rparr>, s'))"




text \<open>
  \<^verbatim>\<open>process_uploaded_files\<close>: on success the answer comes with the arguments bound to the
  worker (the in-memory items, the saved paths and the scratch directory).
\<close>

definition process_uploaded_files_endpoint ::
  "Settings \<Rightarrow> env \<Rightarrow> UploadFile list \<Rightarrow> world \<Rightarrow> 'r BackgroundTaskService
     \<Rightarrow> (exn + accepted \<times> routed) \<times> world \<times> 'r BackgroundTaskService" where
  "process_uploaded_files_endpoint st e files w s =
     (if files = [] then (Inl (HTTPException 400 ''No files uploaded''), w, s)
      else
        (let (r, w1) = route_uploads st e files w in
         if items_in_memory r = [] \<and> saved_paths r = [] then
           (case task_temp_dir r of
              None \<Rightarrow> (Inl (HTTPException 400 ''No processable files after filtering''), w1, s)
            | Some d \<Rightarrow>
                if d = [] then (Inl (HTTPException 400 ''No processable files after filtering''), w1, s)
                else (case cleanup_directory d w1 of
                        (None, w2) \<Rightarrow> (Inl (HTTPException 400 ''No processable files after filtering''), w2, s)
                      | (Some ex, w2) \<Rightarrow> (Inl ex, w2, s)))
         else
           (let (tid, s') = create_task (''Processing '' @ str_nat (length (items_in_memory r) + length (saved_paths r))
                                          @ '' uploaded files'') s
            in (Inr (\<lparr>message = ''File processing started in the background.'',
                      accepted_task_id = tid,
                      status_url = ''/api/v1/tasks/'' @ str_nat tid\<rparr>, r), w1, s'))))"

section \<open>Invariants of the task registry\<close>

definition inv_keys :: "'r BackgroundTaskService \<Rightarrow> bool" where
  "inv_keys s \<longleftrightarrow> distinct (map fst (tasks s)) \<and> (\<forall>tid \<in> fst ` set (tasks s). tid < next_uuid s)"

definition inv_live :: "'r BackgroundTaskService \<Rightarrow> bool" where
  "inv_live s \<longleftrightarrow> (\<forall>tid a. map_of (running_tasks s) tid = Some a \<longrightarrow>
        (\<exists>t. map_of (tasks s) tid = Some t \<and> status t = (if pc a = AwaitWork then RUNNING else PENDING)))"

definition inv_dead :: "'r BackgroundTaskService \<Rightarrow> bool" where
  "inv_dead s \<longleftrightarrow> (\<forall>tid t. map_of (tasks s) tid = Some t \<longrightarrow> map_of (running_tasks s) tid = None \<longrightarrow> is_terminal (status t))"

definition inv_done :: "'r BackgroundTaskService \<Rightarrow> bool" where
  "inv_done s \<longleftrightarrow> (\<forall>tid t. map_of (tasks s) tid = Some t \<longrightarrow> (completed_at t \<noteq> None) = is_terminal (status t))"

definition inv_sem :: "nat \<Rightarrow> 'r BackgroundTaskService \<Rightarrow> bool" where
  "inv_sem N s \<longleftrightarrow> running_count s + semaphore s = N"

text \<open>
  \<open>sound\<close> holds in every state the registry reaches. \<open>coherent\<close> adds what holds as long as
  no unit of work has ended with an exception that \<^verbatim>\<open>_execute_task\<close> does not catch
  (\<open>escapes\<close>): every record without a coroutine is terminal, and the records in status
  RUNNING are as many as the slots taken.
\<close>

definition sound :: "'r BackgroundTaskService \<Rightarrow> bool" where
  "sound s \<longleftrightarrow> inv_keys s \<and> inv_live s \<and> inv_done s"

definition coherent :: "nat \<Rightarrow> 'r BackgroundTaskService \<Rightarrow> bool" where
  "coherent N s \<longleftrightarrow> sound s \<and> inv_dead s \<and> inv_sem N s"

fun escapes :: "'r event \<Rightarrow> bool" where
  "escapes (Finish tid (RaisesBaseException msg)) = True"
| "escapes e = False"

section \<open>Sample environments and the vocabulary of the claims\<close>

text \<open>
  A well-behaved environment: the loader yields one document holding the file's content,
  the splitter returns the documents as they are, the store accepts, a clone puts a
  directory with one file at the target, and the two URL parsers know the URLs of the
  examples.
\<close>

definition env0 :: env where
  "env0 = \<lparr>uuid4_hex = (\<lambda>n. str_nat n),
           loader = (\<lambda>p c. Inr [\<lparr>page_content = c, doc_metadata = []\<rparr>]),
           split_documents = (\<lambda>l cs co ds. Inr ds),
           store_documents = (\<lambda>ds. True),
           clone_from = (\<lambda>url d w. (True, w\<lparr>fs := AList.update (d @ ''/README.md'') (File ''# hi'') (AList.update d Dir (fs w))\<rparr>)),
           urlparse = (\<lambda>url. if url = ''https://github.com/o/r.git'' then Some (''https'', Some ''github.com'')
                            else if url = ''ftp://example.com/repo.git'' then Some (''ftp'', Some ''example.com'')
                            else None),
           pydantic_url = (\<lambda>raw. if raw = ''https://github.com/o/r.git'' then Some (''https'', ''https://github.com/o/r.git'')
                                else if raw = ''ftp://example.com/repo.git'' then Some (''ftp'', ''ftp://example.com/repo.git'')
                                else None),
           dir_size = 4096, time_start = 0, time_end = 0, time_chunk = 0\<rparr>"

text \<open>A file system holding the working directory only.\<close>

definition world0 :: world where
  "world0 = \<lparr>fs = [(''.'', Dir)], read_only = [], strerror = (\<lambda>p. ''[Errno] '' @ p), uuid_draws = 0\<rparr>"

text \<open>A file of 100 MiB and one byte at the path \<^verbatim>\<open>missing.py\<close>.\<close>

definition world_big :: world where
  "world_big = world0\<lparr>fs := [(''missing.py'', File (replicate 104857601 CHR ''x''))]\<rparr>"



text \<open>
  The two kinds of file claim C4 speaks of. A file is unreadable where there is no regular
  file at the path or the loader raises on it; it is valid where every check of
  \<^verbatim>\<open>_process_single_file_async\<close> passes and the splitter returns.
\<close>

definition unreadable :: "env \<Rightarrow> world \<Rightarrow> path \<Rightarrow> bool" where
  "unreadable e w fp = (case map_of (fs w) fp of Some (File c) \<Rightarrow> isl (loader e fp c) | _ \<Rightarrow> True)"

definition valid_file :: "Settings \<Rightarrow> env \<Rightarrow> world \<Rightarrow> path \<Rightarrow> bool" where
  "valid_file st e w fp =
     (is_text_file fp \<and> validate_file_size e w fp (max_file_size_mb st) = Inr True \<and> load_document e w fp \<noteq> [] \<and>
      \<not> isl (create_text_splitter st e fp (load_document e w fp)))"

text \<open>A batch of five files, one of which the loader cannot decode.\<close>

definition env_batch :: env where
  "env_batch = env0\<lparr>loader := (\<lambda>p c. if p = ''docs/bad.md'' then Inl ''cannot decode''
                                       else Inr [\<lparr>page_content = c, doc_metadata = []\<rparr>])\<rparr>"

definition world_batch :: world where
  "world_batch = world0\<lparr>fs := [(''src/a.py'', File ''a = 1''), (''src/b.js'', File ''let b''),
                               (''docs/bad.md'', File [CHR 0xFF]), (''README.md'', File ''# r''),
                               (''notes.txt'', File ''n'')]\<rparr>"

definition batch_paths :: "path list" where
  "batch_paths = [''src/a.py'', ''src/b.js'', ''docs/bad.md'', ''README.md'', ''notes.txt'']"

section \<open>More sample inputs and the vocabulary of the upload claims\<close>

text \<open>The batch of claim C6: 200 bytes of code for \<^verbatim>\<open>a.py\<close>, and the first bytes of a PNG image
  for \<^verbatim>\<open>b.png\<close>.\<close>

definition code_200 :: bytes where
  "code_200 = replicate 200 (CHR ''x'')"

definition png_bytes :: bytes where
  "png_bytes = [CHR 0x89, CHR ''P'', CHR ''N'', CHR ''G'', CHR 0x0D, CHR 0x0A, CHR 0x1A, CHR 0x0A]"

text \<open>A splitter that cuts every document in two.\<close>

definition env_two_chunks :: env where
  "env_two_chunks = env0\<lparr>split_documents := (\<lambda>l cs co ds. Inr (ds @ ds))\<rparr>"










text \<open>The file system a worker finds: the scratch directory of its submission with one saved
  file; one identifier has been drawn.\<close>

definition world_upload :: world where
  "world_upload = world0\<lparr>fs := [(''.'', Dir), (''./temp_files/upload_0'', Dir),
                                 (''./temp_files/upload_0/big.py'', File ''y = 2'')],
                         uuid_draws := 1\<rparr>"

text \<open>A clone tree left behind by an earlier run, and a directory processing that raises.\<close>

definition world_stale :: world where
  "world_stale = world0\<lparr>fs := [(''.'', Dir), (''./temp_repo'', Dir), (''./temp_repo/old.txt'', File ''old'')]\<rparr>"

definition failing_directory_processing :: "path \<Rightarrow> world \<Rightarrow> (exn + FileProcessingStats) \<times> world" where
  "failing_directory_processing d w = (Inl (RuntimeError ''boom''), w)"

section \<open>Proofs: task registry\<close>

lemma count_map_entry:
  "distinct (map fst al) \<Longrightarrow> map_of al k = Some t \<Longrightarrow>
   length (filter (\<lambda>(tid, t). P t) (AList.map_entry k f al)) + (if P t then 1 else 0)
     = length (filter (\<lambda>(tid, t). P t) al) + (if P (f t) then 1 else 0)"
proof (induction al)
  case Nil
  then show ?case by simp
next
  case (Cons p al)
  obtain k' v' where p: "p = (k', v')" by (cases p)
  show ?case
  proof (cases "k' = k")
    case True
    with Cons.prems p show ?thesis by simp
  next
    case False
    with Cons p show ?thesis by simp
  qed
qed

lemma update_fresh: "k \<notin> fst ` set al \<Longrightarrow> AList.update k v al = al @ [(k, v)]"
  by (induction al) auto

lemma map_of_filter_keys:
  "map_of (filter (\<lambda>(k, v). Q k) al) k = (if Q k then map_of al k else None)"
  by (induction al) auto

lemma map_of_None_iff: "map_of al k = None \<longleftrightarrow> k \<notin> fst ` set al"
  by (simp add: map_of_eq_None_iff)

lemmas alist_maps = update_conv' delete_conv' map_of_map_entry

lemma coherent_init: "coherent N (init_service N)"
  by (simp add: coherent_def sound_def inv_keys_def inv_live_def inv_dead_def inv_done_def inv_sem_def
      init_service_def running_count_def)

lemma coherent_sound: "coherent N s \<Longrightarrow> sound s"
  by (simp add: coherent_def)

subsection \<open>Creating a task\<close>

lemma fresh_tasks: "inv_keys s \<Longrightarrow> next_uuid s \<notin> fst ` set (tasks s)"
  by (auto simp: inv_keys_def)

lemma fresh_running: "inv_keys s \<Longrightarrow> inv_live s \<Longrightarrow> map_of (running_tasks s) (next_uuid s) = None"
proof (cases "map_of (running_tasks s) (next_uuid s)")
  case None
  then show ?thesis by simp
next
  case (Some a)
  assume k: "inv_keys s" and l: "inv_live s"
  from l Some obtain t where "map_of (tasks s) (next_uuid s) = Some t"
    unfolding inv_live_def by blast
  then have "next_uuid s \<in> fst ` set (tasks s)"
    by (metis map_of_None_iff option.distinct(1))
  with fresh_tasks[OF k] show ?thesis by simp
qed

lemma create_keys: "inv_keys s \<Longrightarrow> inv_keys (snd (create_task nm s))"
  by (auto simp: inv_keys_def create_task_def Let_def distinct_update dom_update less_Suc_eq)

lemma create_live: "inv_keys s \<Longrightarrow> inv_live s \<Longrightarrow> inv_live (snd (create_task nm s))"
  using fresh_tasks[of s]
  by (auto simp: inv_live_def create_task_def Let_def alist_maps map_of_None_iff
      simp del: map_of_eq_Some_iff)

lemma create_dead: "inv_dead s \<Longrightarrow> inv_dead (snd (create_task nm s))"
  by (auto simp: inv_dead_def create_task_def Let_def alist_maps split: if_splits
      simp del: map_of_eq_Some_iff)

lemma create_done: "inv_done s \<Longrightarrow> inv_done (snd (create_task nm s))"
  by (auto simp: inv_done_def create_task_def Let_def alist_maps is_terminal_def split: if_splits
      simp del: map_of_eq_Some_iff)

lemma create_sem: "inv_keys s \<Longrightarrow> inv_sem N s \<Longrightarrow> inv_sem N (snd (create_task nm s))"
  using fresh_tasks[of s]
  by (simp add: inv_sem_def create_task_def Let_def running_count_def update_fresh)

lemma sound_create: "sound s \<Longrightarrow> sound (snd (create_task nm s))"
  unfolding sound_def
  using create_keys create_live create_done by blast

lemma coherent_create: "coherent N s \<Longrightarrow> coherent N (snd (create_task nm s))"
  unfolding coherent_def sound_def
  using create_keys create_live create_dead create_done create_sem by blast


subsection \<open>Resuming and finishing a coroutine\<close>

lemmas upd_defs = set_running_def set_completed_def set_cancelled_def set_failed_def

lemma inv_liveD: "inv_live s \<Longrightarrow> map_of (running_tasks s) tid = Some a \<Longrightarrow>
   \<exists>t. map_of (tasks s) tid = Some t \<and> status t = (if pc a = AwaitWork then RUNNING else PENDING)"
  unfolding inv_live_def by blast

lemma enter_sound:
  assumes c: "sound s" and a: "map_of (running_tasks s) tid = Some a" and p: "pc a \<noteq> AwaitWork"
  shows "sound (enter_semaphore tid s)"
proof -
  from c have k: "inv_keys s" and l: "inv_live s" and dn: "inv_done s"
    by (auto simp: sound_def)
  from inv_liveD[OF l a] p obtain t where t: "map_of (tasks s) tid = Some t" "status t = PENDING"
    by auto
  have 1: "inv_keys (enter_semaphore tid s)"
    using k by (simp add: inv_keys_def enter_semaphore_def distinct_map_entry dom_map_entry)
  have 2: "inv_live (enter_semaphore tid s)"
    using l a t unfolding inv_live_def enter_semaphore_def
    by (auto simp: alist_maps upd_defs simp del: map_of_eq_Some_iff)
  have 4: "inv_done (enter_semaphore tid s)"
    using dn a t unfolding inv_done_def enter_semaphore_def
    by (auto simp: alist_maps upd_defs is_terminal_def split: if_splits simp del: map_of_eq_Some_iff)
  from 1 2 4 show ?thesis by (simp add: sound_def)
qed

lemma enter_coherent:
  assumes c: "coherent N s" and a: "map_of (running_tasks s) tid = Some a"
    and p: "pc a \<noteq> AwaitWork" and sem: "0 < semaphore s"
  shows "coherent N (enter_semaphore tid s)"
proof -
  from c have k: "inv_keys s" and l: "inv_live s" and d: "inv_dead s"
    and sm: "inv_sem N s" by (auto simp: coherent_def sound_def)
  from inv_liveD[OF l a] p obtain t where t: "map_of (tasks s) tid = Some t" "status t = PENDING"
    by auto
  have 3: "inv_dead (enter_semaphore tid s)"
    using d a t unfolding inv_dead_def enter_semaphore_def
    by (auto simp: alist_maps upd_defs split: if_splits simp del: map_of_eq_Some_iff)
  from k have dist: "distinct (map fst (tasks s))" by (simp add: inv_keys_def)
  have 5: "inv_sem N (enter_semaphore tid s)"
    using sm sem t count_map_entry[OF dist t(1), of "\<lambda>t. status t = RUNNING" "set_running (clock s)"]
    by (simp add: inv_sem_def enter_semaphore_def running_count_def upd_defs)
  from enter_sound[OF coherent_sound[OF c] a p] 3 5 show ?thesis by (simp add: coherent_def)
qed

lemma repc_sound:
  assumes c: "sound s" and a: "map_of (running_tasks s) tid = Some a"
    and p: "(pc (g a) = AwaitWork) = (pc a = AwaitWork)"
  shows "sound (s\<lparr>running_tasks := AList.map_entry tid g (running_tasks s)\<rparr>)"
proof -
  let ?s' = "s\<lparr>running_tasks := AList.map_entry tid g (running_tasks s)\<rparr>"
  from c have k: "inv_keys s" and l: "inv_live s" and dn: "inv_done s"
    by (auto simp: sound_def)
  have 1: "inv_keys ?s'" using k by (simp add: inv_keys_def)
  have 2: "inv_live ?s'"
    using l a p unfolding inv_live_def
    by (auto simp: alist_maps split: if_splits simp del: map_of_eq_Some_iff)
  have 4: "inv_done ?s'" using dn by (simp add: inv_done_def)
  from 1 2 4 show ?thesis by (simp add: sound_def)
qed

lemma repc_coherent:
  assumes c: "coherent N s" and a: "map_of (running_tasks s) tid = Some a"
    and p: "(pc (g a) = AwaitWork) = (pc a = AwaitWork)"
  shows "coherent N (s\<lparr>running_tasks := AList.map_entry tid g (running_tasks s)\<rparr>)"
proof -
  let ?s' = "s\<lparr>running_tasks := AList.map_entry tid g (running_tasks s)\<rparr>"
  from c have d: "inv_dead s" and sm: "inv_sem N s" by (auto simp: coherent_def)
  have 3: "inv_dead ?s'"
    using d a unfolding inv_dead_def
    by (auto simp: alist_maps split: if_splits simp del: map_of_eq_Some_iff)
  have 5: "inv_sem N ?s'" using sm by (simp add: inv_sem_def running_count_def)
  from repc_sound[where g = g, OF coherent_sound[OF c] a p] 3 5 show ?thesis by (simp add: coherent_def)
qed

lemma leave_sound:
  assumes c: "sound s" and a: "map_of (running_tasks s) tid = Some a"
    and u: "\<And>t. is_terminal (status (upd t)) \<and> completed_at (upd t) \<noteq> None"
  shows "sound (finally_remove tid (s\<lparr>semaphore := semaphore s + k, tasks := AList.map_entry tid upd (tasks s)\<rparr>))"
proof -
  let ?s' = "finally_remove tid (s\<lparr>semaphore := semaphore s + k, tasks := AList.map_entry tid upd (tasks s)\<rparr>)"
  from c have k: "inv_keys s" and l: "inv_live s" and dn: "inv_done s"
    by (auto simp: sound_def)
  from inv_liveD[OF l a] obtain t where t: "map_of (tasks s) tid = Some t"
     "status t = (if pc a = AwaitWork then RUNNING else PENDING)"
    by auto
  have 1: "inv_keys ?s'"
    using k by (simp add: inv_keys_def finally_remove_def distinct_map_entry dom_map_entry)
  have 2: "inv_live ?s'"
    using l a t unfolding inv_live_def finally_remove_def
    by (auto simp: alist_maps split: if_splits simp del: map_of_eq_Some_iff)
  have 4: "inv_done ?s'"
    using dn a t u unfolding inv_done_def finally_remove_def
    by (auto simp: alist_maps split: if_splits simp del: map_of_eq_Some_iff)
  from 1 2 4 show ?thesis by (simp add: sound_def)
qed

lemma leave_coherent:
  assumes c: "coherent N s" and a: "map_of (running_tasks s) tid = Some a"
    and u: "\<And>t. is_terminal (status (upd t)) \<and> completed_at (upd t) \<noteq> None"
    and kk: "k = (if pc a = AwaitWork then 1 else 0)"
  shows "coherent N (finally_remove tid (s\<lparr>semaphore := semaphore s + k, tasks := AList.map_entry tid upd (tasks s)\<rparr>))"
proof -
  let ?s' = "finally_remove tid (s\<lparr>semaphore := semaphore s + k, tasks := AList.map_entry tid upd (tasks s)\<rparr>)"
  from c have k: "inv_keys s" and l: "inv_live s" and d: "inv_dead s"
    and sm: "inv_sem N s" by (auto simp: coherent_def sound_def)
  from inv_liveD[OF l a] obtain t where t: "map_of (tasks s) tid = Some t"
     "status t = (if pc a = AwaitWork then RUNNING else PENDING)"
    by auto
  have 3: "inv_dead ?s'"
    using d a t u unfolding inv_dead_def finally_remove_def
    by (auto simp: alist_maps split: if_splits simp del: map_of_eq_Some_iff)
  from k have dist: "distinct (map fst (tasks s))" by (simp add: inv_keys_def)
  from u[of t] have nr: "status (upd t) \<noteq> RUNNING" by (auto simp: is_terminal_def)
  have 5: "inv_sem N ?s'"
    using sm t kk nr count_map_entry[OF dist t(1), of "\<lambda>t. status t = RUNNING" upd]
    by (auto simp add: inv_sem_def finally_remove_def running_count_def split: if_splits)
  from leave_sound[where upd = upd and k = k, OF coherent_sound[OF c] a u] 3 5 show ?thesis by (simp add: coherent_def)
qed

lemma drop_sound:
  assumes c: "sound s"
  shows "sound (finally_remove tid (s\<lparr>semaphore := k\<rparr>))"
proof -
  from c have k: "inv_keys s" and l: "inv_live s" and dn: "inv_done s"
    by (auto simp: sound_def)
  have 1: "inv_keys (finally_remove tid (s\<lparr>semaphore := k\<rparr>))"
    using k by (simp add: inv_keys_def finally_remove_def)
  have 2: "inv_live (finally_remove tid (s\<lparr>semaphore := k\<rparr>))"
    using l unfolding inv_live_def finally_remove_def
    by (auto simp: alist_maps split: if_splits simp del: map_of_eq_Some_iff)
  have 4: "inv_done (finally_remove tid (s\<lparr>semaphore := k\<rparr>))"
    using dn by (simp add: inv_done_def finally_remove_def)
  from 1 2 4 show ?thesis by (simp add: sound_def)
qed

lemma sound_advance: assumes c: "sound s" shows "sound (execute_task_advance tid s)"
proof (cases "map_of (running_tasks s) tid")
  case None
  with c show ?thesis by (simp add: execute_task_advance_def)
next
  case (Some a)
  show ?thesis
  proof (cases "pc a")
    case NotStarted
    then show ?thesis
      using Some c enter_sound[OF c Some] repc_sound[where g = "\<lambda>a. a\<lparr>pc := Done\<rparr>", OF c Some]
        repc_sound[where g = "\<lambda>a. a\<lparr>pc := AwaitSemaphore\<rparr>", OF c Some]
      by (simp add: execute_task_advance_def)
  next
    case AwaitSemaphore
    then show ?thesis
      using Some c enter_sound[OF c Some]
        leave_sound[where upd = "set_cancelled (clock s)" and k = 0, OF c Some]
      by (simp add: execute_task_advance_def upd_defs is_terminal_def)
  next
    case AwaitWork
    with Some c show ?thesis by (simp add: execute_task_advance_def)
  next
    case Done
    with Some c show ?thesis by (simp add: execute_task_advance_def)
  qed
qed

lemma coherent_advance: assumes c: "coherent N s" shows "coherent N (execute_task_advance tid s)"
proof (cases "map_of (running_tasks s) tid")
  case None
  with c show ?thesis by (simp add: execute_task_advance_def)
next
  case (Some a)
  show ?thesis
  proof (cases "pc a")
    case NotStarted
    then show ?thesis
      using Some c enter_coherent[OF c Some] repc_coherent[OF c Some, of "\<lambda>a. a\<lparr>pc := Done\<rparr>"]
        repc_coherent[OF c Some, of "\<lambda>a. a\<lparr>pc := AwaitSemaphore\<rparr>"]
      by (simp add: execute_task_advance_def)
  next
    case AwaitSemaphore
    then show ?thesis
      using Some c enter_coherent[OF c Some]
        leave_coherent[OF c Some, of "set_cancelled (clock s)" 0]
      by (simp add: execute_task_advance_def upd_defs is_terminal_def)
  next
    case AwaitWork
    with Some c show ?thesis by (simp add: execute_task_advance_def)
  next
    case Done
    with Some c show ?thesis by (simp add: execute_task_advance_def)
  qed
qed

lemma sound_finish: assumes c: "sound s" shows "sound (snd (execute_task_finish tid oc s))"
proof (cases "map_of (running_tasks s) tid")
  case None
  with c show ?thesis by (simp add: execute_task_finish_def)
next
  case (Some a)
  show ?thesis
  proof (cases "pc a = AwaitWork")
    case True
    show ?thesis
    proof (cases oc)
      case (Returns r)
      from leave_sound[where upd = "set_completed (clock s) r" and k = 1, OF c Some] True Some Returns
      show ?thesis by (simp add: execute_task_finish_def Let_def upd_defs is_terminal_def)
    next
      case (RaisesException msg)
      from leave_sound[where upd = "set_failed (clock s) msg" and k = 1, OF c Some] True Some RaisesException
      show ?thesis by (simp add: execute_task_finish_def Let_def upd_defs is_terminal_def)
    next
      case RaisesCancelled
      from leave_sound[where upd = "set_cancelled (clock s)" and k = 1, OF c Some] True Some RaisesCancelled
      show ?thesis by (simp add: execute_task_finish_def Let_def upd_defs is_terminal_def)
    next
      case (RaisesBaseException msg)
      from drop_sound[OF c, of tid "semaphore s + 1"] True Some RaisesBaseException
      show ?thesis by (simp add: execute_task_finish_def Let_def)
    qed
  next
    case False
    with Some c show ?thesis by (simp add: execute_task_finish_def)
  qed
qed

lemma coherent_finish:
  assumes c: "coherent N s" and b: "\<not> escapes (Finish tid oc)"
  shows "coherent N (snd (execute_task_finish tid oc s))"
proof (cases "map_of (running_tasks s) tid")
  case None
  with c show ?thesis by (simp add: execute_task_finish_def)
next
  case (Some a)
  show ?thesis
  proof (cases "pc a = AwaitWork")
    case True
    show ?thesis
    proof (cases oc)
      case (Returns r)
      from leave_coherent[OF c Some, of "set_completed (clock s) r" 1] True Some Returns
      show ?thesis by (simp add: execute_task_finish_def Let_def upd_defs is_terminal_def)
    next
      case (RaisesException msg)
      from leave_coherent[OF c Some, of "set_failed (clock s) msg" 1] True Some RaisesException
      show ?thesis by (simp add: execute_task_finish_def Let_def upd_defs is_terminal_def)
    next
      case RaisesCancelled
      from leave_coherent[OF c Some, of "set_cancelled (clock s)" 1] True Some RaisesCancelled
      show ?thesis by (simp add: execute_task_finish_def Let_def upd_defs is_terminal_def)
    next
      case (RaisesBaseException msg)
      with b show ?thesis by simp
    qed
  next
    case False
    with Some c show ?thesis by (simp add: execute_task_finish_def)
  qed
qed

lemma sound_cancel: assumes c: "sound s" shows "sound (snd (cancel_task tid s))"
proof (cases "map_of (running_tasks s) tid")
  case None
  with c show ?thesis by (simp add: cancel_task_def)
next
  case (Some a)
  with c repc_sound[where g = "\<lambda>a. a\<lparr>must_cancel := True\<rparr>", OF c Some]
  show ?thesis by (simp add: cancel_task_def)
qed

lemma coherent_cancel: assumes c: "coherent N s" shows "coherent N (snd (cancel_task tid s))"
proof (cases "map_of (running_tasks s) tid")
  case None
  with c show ?thesis by (simp add: cancel_task_def)
next
  case (Some a)
  with c repc_coherent[OF c Some, of "\<lambda>a. a\<lparr>must_cancel := True\<rparr>"]
  show ?thesis by (simp add: cancel_task_def)
qed

lemma sound_tick: "sound s \<Longrightarrow> sound (s\<lparr>clock := clock s + d\<rparr>)"
  by (simp add: sound_def inv_keys_def inv_live_def inv_done_def
      del: map_of_eq_Some_iff)

lemma coherent_tick: "coherent N s \<Longrightarrow> coherent N (s\<lparr>clock := clock s + d\<rparr>)"
  by (simp add: coherent_def sound_def inv_keys_def inv_live_def inv_dead_def inv_done_def inv_sem_def running_count_def
      del: map_of_eq_Some_iff)

subsection \<open>The cleanup sweep\<close>

lemma cleanup_tasks:
  "tasks (snd (cleanup_completed_tasks s)) =
     filter (\<lambda>(tid, t). tid \<notin> fst ` set (filter (\<lambda>(tid, t). expired s t) (tasks s))) (tasks s)"
  by (simp add: cleanup_completed_tasks_def Let_def)

lemma cleanup_other:
  "running_tasks (snd (cleanup_completed_tasks s)) = running_tasks s"
  "semaphore (snd (cleanup_completed_tasks s)) = semaphore s"
  "next_uuid (snd (cleanup_completed_tasks s)) = next_uuid s"
  by (simp_all add: cleanup_completed_tasks_def Let_def)

lemma removed_terminal:
  assumes dist: "distinct (map fst (tasks s))" and t: "map_of (tasks s) tid = Some t"
    and r: "tid \<in> fst ` set (filter (\<lambda>(tid, t). expired s t) (tasks s))"
  shows "is_terminal (status t)"
proof -
  from r obtain t' where "(tid, t') \<in> set (tasks s)" "expired s t'" by auto
  with dist t have "t' = t" by simp
  with \<open>expired s t'\<close> show ?thesis by (simp add: expired_def)
qed

lemma sound_cleanup: assumes c: "sound s" shows "sound (snd (cleanup_completed_tasks s))"
proof -
  let ?s' = "snd (cleanup_completed_tasks s)"
  let ?R = "fst ` set (filter (\<lambda>(tid, t). expired s t) (tasks s))"
  from c have k: "inv_keys s" and l: "inv_live s" and dn: "inv_done s"
    by (auto simp: sound_def)
  from k have dist: "distinct (map fst (tasks s))" by (simp add: inv_keys_def)
  have m: "map_of (tasks ?s') tid = (if tid \<notin> ?R then map_of (tasks s) tid else None)" for tid
    unfolding cleanup_tasks by (rule map_of_filter_keys)
  have 1: "inv_keys ?s'"
    using k by (auto simp: inv_keys_def cleanup_tasks cleanup_other distinct_map_filter)
  have 2: "inv_live ?s'"
    unfolding inv_live_def
  proof (intro allI impI)
    fix tid a assume a: "map_of (running_tasks ?s') tid = Some a"
    then have a': "map_of (running_tasks s) tid = Some a" by (simp add: cleanup_other)
    from inv_liveD[OF l a'] obtain t where t: "map_of (tasks s) tid = Some t"
      "status t = (if pc a = AwaitWork then RUNNING else PENDING)" by auto
    have "tid \<notin> ?R"
    proof
      assume "tid \<in> ?R"
      from removed_terminal[OF dist t(1) this] t(2) show False
        by (auto simp: is_terminal_def split: if_splits)
    qed
    with t show "\<exists>t. map_of (tasks ?s') tid = Some t \<and> status t = (if pc a = AwaitWork then RUNNING else PENDING)"
      by (simp add: m)
  qed
  have 4: "inv_done ?s'"
    using dn unfolding inv_done_def by (auto simp: m split: if_splits simp del: map_of_eq_Some_iff)
  from 1 2 4 show ?thesis by (simp add: sound_def)
qed

lemma coherent_cleanup: assumes c: "coherent N s" shows "coherent N (snd (cleanup_completed_tasks s))"
proof -
  let ?s' = "snd (cleanup_completed_tasks s)"
  let ?R = "fst ` set (filter (\<lambda>(tid, t). expired s t) (tasks s))"
  from c have k: "inv_keys s" and d: "inv_dead s"
    and sm: "inv_sem N s" by (auto simp: coherent_def sound_def)
  from k have dist: "distinct (map fst (tasks s))" by (simp add: inv_keys_def)
  have m: "map_of (tasks ?s') tid = (if tid \<notin> ?R then map_of (tasks s) tid else None)" for tid
    unfolding cleanup_tasks by (rule map_of_filter_keys)
  have 3: "inv_dead ?s'"
    using d unfolding inv_dead_def by (auto simp: m cleanup_other split: if_splits simp del: map_of_eq_Some_iff)
  have "filter (\<lambda>(tid, t). status t = RUNNING) (tasks ?s') = filter (\<lambda>(tid, t). status t = RUNNING) (tasks s)"
    unfolding cleanup_tasks filter_filter
  proof (rule filter_cong[OF refl])
    fix x assume x: "x \<in> set (tasks s)"
    obtain tid t where xt: "x = (tid, t)" by (cases x)
    with x dist have mt: "map_of (tasks s) tid = Some t" by simp
    show "((case x of (tid, t) \<Rightarrow> tid \<notin> ?R) \<and> (case x of (tid, t) \<Rightarrow> status t = RUNNING)) =
          (case x of (tid, t) \<Rightarrow> status t = RUNNING)"
    proof (cases "tid \<in> ?R")
      case True
      from removed_terminal[OF dist mt True] have "status t \<noteq> RUNNING"
        by (auto simp: is_terminal_def)
      with True xt show ?thesis by simp
    next
      case False
      with xt show ?thesis by simp
    qed
  qed
  then have 5: "inv_sem N ?s'"
    using sm by (simp add: inv_sem_def running_count_def cleanup_other)
  from sound_cleanup[OF coherent_sound[OF c]] 3 5 show ?thesis by (simp add: coherent_def)
qed

lemma sound_step: "sound s \<Longrightarrow> sound (step e s)"
  by (cases e) (simp_all add: sound_create sound_advance sound_finish sound_cancel
      sound_cleanup sound_tick)

lemma sound_run: "sound s \<Longrightarrow> sound (run es s)"
  by (induction es arbitrary: s) (simp_all add: sound_step)

lemma coherent_step: "coherent N s \<Longrightarrow> \<not> escapes e \<Longrightarrow> coherent N (step e s)"
  by (cases e) (simp_all add: coherent_create coherent_advance coherent_finish coherent_cancel
      coherent_cleanup coherent_tick)

lemma coherent_run: "coherent N s \<Longrightarrow> list_all (\<lambda>e. \<not> escapes e) es \<Longrightarrow> coherent N (run es s)"
  by (induction es arbitrary: s) (simp_all add: coherent_step)

lemma run_append: "run (es @ es') s = run es' (run es s)"
  by (induction es arbitrary: s) simp_all


subsection \<open>Properties of every reachable registry\<close>

lemma reachable_sound: "sound (run evs (init_service N))"
  by (rule sound_run[OF coherent_sound[OF coherent_init]])

lemma reachable_coherent: "list_all (\<lambda>e. \<not> escapes e) evs \<Longrightarrow> coherent N (run evs (init_service N))"
  by (rule coherent_run[OF coherent_init])

lemma not_live_if_terminal:
  assumes l: "inv_live s" and t: "map_of (tasks s) tid = None \<or> (map_of (tasks s) tid = Some t \<and> is_terminal (status t))"
  shows "map_of (running_tasks s) tid = None"
proof (cases "map_of (running_tasks s) tid")
  case None
  then show ?thesis .
next
  case (Some a)
  from inv_liveD[OF l Some] t show ?thesis
    by (auto simp: is_terminal_def split: if_splits)
qed

lemma terminal_step:
  assumes c: "sound s" and lt: "tid < next_uuid s"
    and t: "map_of (tasks s) tid = None \<or> (map_of (tasks s) tid = Some t \<and> is_terminal (status t))"
  shows "tid < next_uuid (step e s) \<and>
         (map_of (tasks (step e s)) tid = None \<or> map_of (tasks (step e s)) tid = map_of (tasks s) tid)"
proof -
  from c have l: "inv_live s" by (simp add: sound_def)
  note nr = not_live_if_terminal[OF l t]
  show ?thesis
  proof (cases e)
    case (Create nm)
    with lt t show ?thesis by (auto simp: create_task_def Let_def alist_maps simp del: map_of_eq_Some_iff)
  next
    case (Advance k)
    show ?thesis
    proof (cases "k = tid")
      case True
      with Advance nr lt t show ?thesis by (auto simp: execute_task_advance_def)
    next
      case False
      with Advance lt t show ?thesis
        by (auto simp: execute_task_advance_def enter_semaphore_def finally_remove_def alist_maps
            split: option.splits coro.splits simp del: map_of_eq_Some_iff)
    qed
  next
    case (Finish k oc)
    show ?thesis
    proof (cases "k = tid")
      case True
      with Finish nr lt t show ?thesis by (auto simp: execute_task_finish_def)
    next
      case False
      with Finish lt t show ?thesis
        by (auto simp: execute_task_finish_def finally_remove_def alist_maps Let_def
            split: option.splits outcome.splits simp del: map_of_eq_Some_iff)
    qed
  next
    case (CancelTask k)
    with lt t show ?thesis
      by (auto simp: cancel_task_def split: option.splits simp del: map_of_eq_Some_iff)
  next
    case Cleanup
    with lt t show ?thesis
      by (auto simp: cleanup_tasks cleanup_other map_of_filter_keys simp del: map_of_eq_Some_iff)
  next
    case (Tick d)
    with lt t show ?thesis by auto
  qed
qed

lemma terminal_run:
  assumes "sound s" and "tid < next_uuid s"
    and "map_of (tasks s) tid = None \<or> (map_of (tasks s) tid = Some t \<and> is_terminal (status t))"
  shows "map_of (tasks (run es s)) tid = None \<or> map_of (tasks (run es s)) tid = Some t"
  using assms
proof (induction es arbitrary: s)
  case Nil
  then show ?case by auto
next
  case (Cons e es)
  from terminal_step[OF Cons.prems, of e]
  have lt': "tid < next_uuid (step e s)"
    and t': "map_of (tasks (step e s)) tid = None \<or> map_of (tasks (step e s)) tid = map_of (tasks s) tid" by auto
  from t' Cons.prems(3) have t'': "map_of (tasks (step e s)) tid = None \<or>
      (map_of (tasks (step e s)) tid = Some t \<and> is_terminal (status t))" by auto
  from Cons.IH[OF sound_step[OF Cons.prems(1)] lt' t''] show ?case by simp
qed

lemma sound_list_all:
  assumes "sound s" shows "completed_at_iff_terminal s"
proof -
  from assms have dist: "distinct (map fst (tasks s))" and dn: "inv_done s"
    by (auto simp: sound_def inv_keys_def)
  show ?thesis
    unfolding completed_at_iff_terminal_def list_all_iff
  proof
    fix x assume x: "x \<in> set (tasks s)"
    obtain tid t where xt: "x = (tid, t)" by (cases x)
    with x dist have "map_of (tasks s) tid = Some t" by simp
    with dn xt show "case x of (tid, t) \<Rightarrow> (completed_at t \<noteq> None) = is_terminal (status t)"
      unfolding inv_done_def by blast
  qed
qed

text \<open>
  Claim C1. In every state the registry reaches from its initial state, by any sequence of
  interface calls, coroutine steps, unit-of-work outcomes and clock ticks, every task record
  has \<^verbatim>\<open>completed_at\<close> set if and only if its status is COMPLETED, FAILED or CANCELLED; and
  a record whose status is terminal is, after any further events, either still the same
  record (so its status has not changed) or has been removed by the cleanup sweep.
\<close>

theorem C1_completed_at_iff_terminal_and_final:
  fixes evs evs' :: "'r event list"
  shows "completed_at_iff_terminal (run evs (init_service N)) \<and>
   (\<forall>tid t. get_task_status tid (run evs (init_service N)) = Some t \<longrightarrow> is_terminal (status t) \<longrightarrow>
      get_task_status tid (run (evs @ evs') (init_service N)) = Some t \<or>
      get_task_status tid (run (evs @ evs') (init_service N)) = None)"
proof (intro conjI allI impI)
  let ?s = "run evs (init_service N) :: 'r BackgroundTaskService"
  have c: "sound ?s" by (rule reachable_sound)
  show "completed_at_iff_terminal ?s" by (rule sound_list_all[OF c])
  fix tid t assume t: "get_task_status tid ?s = Some t" and trm: "is_terminal (status t)"
  from t have m: "map_of (tasks ?s) tid = Some t" by (simp add: get_task_status_def)
  then have "tid \<in> fst ` set (tasks ?s)" by (metis map_of_None_iff option.distinct(1))
  with c have lt: "tid < next_uuid ?s" by (auto simp: sound_def inv_keys_def)
  from terminal_run[OF c lt, of t evs'] m trm
  show "get_task_status tid (run (evs @ evs') (init_service N)) = Some t \<or>
      get_task_status tid (run (evs @ evs') (init_service N)) = None"
    by (auto simp: get_task_status_def run_append)
qed


lemmas run_defs = init_service_def create_task_def execute_task_advance_def execute_task_finish_def
  cancel_task_def cleanup_completed_tasks_def enter_semaphore_def finally_remove_def
  set_running_def set_completed_def set_cancelled_def set_failed_def expired_def is_terminal_def Let_def

text \<open>A task that failed stays FAILED through later events, among them a cleanup sweep
  before the retention time has passed.\<close>

theorem C1_witness:
  "get_task_status 0 (run [Create ''job'', Advance 0, Finish 0 (RaisesException ''boom'')] (init_service 3 :: nat BackgroundTaskService))
     = Some \<lparr>task_id = 0, name = ''job'', status = FAILED, created_at = 0, started_at = Some 0,
             completed_at = Some 0, progress = 0, result = None, error_message = Some ''boom'', metadata = []\<rparr>
   \<and> is_terminal FAILED
   \<and> completed_at_iff_terminal (run [Create ''job'', Advance 0, Finish 0 (RaisesException ''boom'')] (init_service 3 :: nat BackgroundTaskService))
   \<and> status_of 0 (run ([Create ''job'', Advance 0, Finish 0 (RaisesException ''boom'')] @
          [Tick 10, Create ''next'', Advance 0, Finish 0 (Returns 1), CancelTask 0, Cleanup])
          (init_service 3 :: nat BackgroundTaskService)) = Some FAILED"
  using C1_completed_at_iff_terminal_and_final[of "[Create ''job'', Advance 0, Finish 0 (RaisesException ''boom'')]" 3
      "[Tick 10, Create ''next'', Advance 0, Finish 0 (Returns (1::nat)), CancelTask 0, Cleanup]"]
  by (simp add: run_defs get_task_status_def status_of_def)

lemma no_admission_without_slot:
  assumes sem: "semaphore s = 0" and t: "status_of tid s = Some PENDING"
  shows "status_of tid (step e s) \<noteq> Some RUNNING"
proof (cases e)
  case (Create nm)
  with t show ?thesis
    by (auto simp: status_of_def get_task_status_def create_task_def Let_def alist_maps
        simp del: map_of_eq_Some_iff)
next
  case (Advance k)
  with sem t show ?thesis
    by (auto simp: status_of_def get_task_status_def execute_task_advance_def finally_remove_def
        alist_maps upd_defs split: option.splits coro.splits if_splits simp del: map_of_eq_Some_iff)
next
  case (Finish k oc)
  with t show ?thesis
    by (cases oc) (auto simp: status_of_def get_task_status_def execute_task_finish_def finally_remove_def
        alist_maps upd_defs Let_def split: option.splits if_splits simp del: map_of_eq_Some_iff)
next
  case (CancelTask k)
  with t show ?thesis
    by (auto simp: status_of_def get_task_status_def cancel_task_def split: option.splits
        simp del: map_of_eq_Some_iff)
next
  case Cleanup
  with t show ?thesis
    by (auto simp: status_of_def get_task_status_def cleanup_tasks map_of_filter_keys
        split: if_splits simp del: map_of_eq_Some_iff)
next
  case (Tick d)
  with t show ?thesis by (auto simp: status_of_def get_task_status_def)
qed

lemma ceiling_while_nothing_escapes:
  fixes evs :: "'r event list"
  assumes "list_all (\<lambda>e. \<not> escapes e) evs"
  shows "running_count (run evs (init_service N)) \<le> N \<and>
    (running_count (run evs (init_service N)) = N \<longrightarrow>
       (\<forall>tid e. status_of tid (run evs (init_service N)) = Some PENDING \<longrightarrow>
          status_of tid (run (evs @ [e]) (init_service N)) \<noteq> Some RUNNING))"
proof -
  let ?s = "run evs (init_service N) :: 'r BackgroundTaskService"
  have "coherent N ?s" by (rule reachable_coherent[OF assms])
  then have sm: "running_count ?s + semaphore ?s = N" by (simp add: coherent_def inv_sem_def)
  then have 1: "running_count ?s \<le> N" by simp
  have 2: "status_of tid (run (evs @ [e]) (init_service N)) \<noteq> Some RUNNING"
    if "running_count ?s = N" and "status_of tid ?s = Some PENDING" for tid e
  proof -
    from that(1) sm have "semaphore ?s = 0" by simp
    from no_admission_without_slot[OF this that(2), of e] show ?thesis by (simp add: run_append)
  qed
  from 1 2 show ?thesis by blast
qed

text \<open>
  Claim C2. A registry with ceiling 1 and two submitted tasks. The first task takes the slot
  and the second waits for it. The unit of work of the first task then ends with an
  exception that derives from \<^verbatim>\<open>BaseException\<close> only: \<^verbatim>\<open>async with\<close> releases the slot, neither
  \<^verbatim>\<open>except\<close> clause of \<^verbatim>\<open>_execute_task\<close> matches, and the record of the first task keeps the
  status RUNNING although its coroutine has ended. The second task takes the released slot:
  two records are in status RUNNING under a ceiling of 1. (As long as no unit of work ends
  that way the ceiling holds: lemma \<open>ceiling_while_nothing_escapes\<close>.)
\<close>

theorem C2_running_exceeds_ceiling_after_uncaught_exception:
  "running_count (run [Create ''a'', Create ''b'', Advance 0, Advance 1] (init_service 1 :: nat BackgroundTaskService)) = 1
   \<and> status_of 1 (run [Create ''a'', Create ''b'', Advance 0, Advance 1] (init_service 1 :: nat BackgroundTaskService)) = Some PENDING
   \<and> fst (execute_task_finish 0 (RaisesBaseException ''panic'')
         (run [Create ''a'', Create ''b'', Advance 0, Advance 1] (init_service 1 :: nat BackgroundTaskService))) = Some ''panic''
   \<and> status_of 0 (run [Create ''a'', Create ''b'', Advance 0, Advance 1, Finish 0 (RaisesBaseException ''panic'')]
         (init_service 1 :: nat BackgroundTaskService)) = Some RUNNING
   \<and> map_of (running_tasks (run [Create ''a'', Create ''b'', Advance 0, Advance 1, Finish 0 (RaisesBaseException ''panic'')]
         (init_service 1 :: nat BackgroundTaskService))) 0 = None
   \<and> status_of 1 (run [Create ''a'', Create ''b'', Advance 0, Advance 1, Finish 0 (RaisesBaseException ''panic''), Advance 1]
         (init_service 1 :: nat BackgroundTaskService)) = Some RUNNING
   \<and> running_count (run [Create ''a'', Create ''b'', Advance 0, Advance 1, Finish 0 (RaisesBaseException ''panic''), Advance 1]
         (init_service 1 :: nat BackgroundTaskService)) = 2"
  by (simp add: run_defs get_task_status_def status_of_def running_count_def)

text \<open>
  Claim C3 says that whatever exception the unit of work raises, the record becomes FAILED
  with the text of the exception. A unit of work that ends with \<^verbatim>\<open>asyncio.CancelledError\<close>
  (the task was cancelled while the unit ran, or the unit raised it) leaves the record
  CANCELLED, with \<^verbatim>\<open>error_message\<close> unset. A unit of work that ends with another exception
  outside class \<^verbatim>\<open>Exception\<close> is not caught: the exception leaves \<^verbatim>\<open>_execute_task\<close> and the
  record stays RUNNING, with \<^verbatim>\<open>error_message\<close> unset.
\<close>

theorem C3_counterexample:
  "get_task_status 0 (run [Create ''job'', Advance 0, Finish 0 RaisesCancelled] (init_service 3 :: nat BackgroundTaskService))
     = Some \<lparr>task_id = 0, name = ''job'', status = CANCELLED, created_at = 0, started_at = Some 0,
             completed_at = Some 0, progress = 0, result = None, error_message = None, metadata = []\<rparr>
   \<and> fst (execute_task_finish 0 (RaisesBaseException ''panic'')
         (run [Create ''job'', Advance 0] (init_service 3 :: nat BackgroundTaskService))) = Some ''panic''
   \<and> get_task_status 0 (run [Create ''job'', Advance 0, Finish 0 (RaisesBaseException ''panic'')] (init_service 3 :: nat BackgroundTaskService))
     = Some \<lparr>task_id = 0, name = ''job'', status = RUNNING, created_at = 0, started_at = Some 0,
             completed_at = None, progress = 0, result = None, error_message = None, metadata = []\<rparr>"
  by (simp add: run_defs get_task_status_def)

lemma create_task_is_step: "snd (create_task nm s) = step (Create nm) s"
  by simp

text \<open>
  Claim C3, amended. \<^verbatim>\<open>create_task\<close> returns the id of a record in status PENDING: the unit of
  work has not run yet. Whatever happens to the registry afterwards, when the coroutine of
  that task is awaiting its unit of work the record is RUNNING, and then: if the unit
  raises an exception of class \<^verbatim>\<open>Exception\<close>, nothing leaves \<^verbatim>\<open>_execute_task\<close> and the record, as
  \<^verbatim>\<open>get_task_status\<close> returns it, becomes FAILED with \<^verbatim>\<open>error_message\<close> the text of the exception
  and \<^verbatim>\<open>completed_at\<close> the time of the failure; if \<^verbatim>\<open>asyncio.CancelledError\<close> is raised, nothing
  leaves \<^verbatim>\<open>_execute_task\<close> and the record becomes CANCELLED with \<^verbatim>\<open>completed_at\<close> set and
  \<^verbatim>\<open>error_message\<close> as it was.
\<close>

theorem C3_exception_failed_cancellation_cancelled:
  fixes evs evs' :: "'r event list"
  assumes sub: "create_task nm (run evs (init_service N)) = (tid, s1)"
    and a: "map_of (running_tasks (run evs' s1)) tid = Some a" and p: "pc a = AwaitWork"
  shows "status_of tid s1 = Some PENDING \<and>
     (\<exists>t. get_task_status tid (run evs' s1) = Some t \<and> status t = RUNNING \<and>
        (\<forall>msg. fst (execute_task_finish tid (RaisesException msg) (run evs' s1)) = None \<and>
           get_task_status tid (snd (execute_task_finish tid (RaisesException msg) (run evs' s1)))
             = Some (t\<lparr>status := FAILED, completed_at := Some (clock (run evs' s1)),
                        error_message := Some msg\<rparr>)) \<and>
        fst (execute_task_finish tid RaisesCancelled (run evs' s1)) = None \<and>
        get_task_status tid (snd (execute_task_finish tid RaisesCancelled (run evs' s1)))
          = Some (t\<lparr>status := CANCELLED, completed_at := Some (clock (run evs' s1))\<rparr>))"
proof -
  let ?init = "run evs (init_service N) :: 'r BackgroundTaskService"
  let ?s = "run evs' s1"
  from sub have "snd (create_task nm ?init) = s1" by simp
  then have s1: "s1 = step (Create nm) ?init" by simp
  from sub have "fst (create_task nm ?init) = tid" by simp
  then have tid: "tid = next_uuid ?init" by (simp add: create_task_def Let_def)
  have 1: "status_of tid s1 = Some PENDING"
    unfolding s1 tid by (simp add: status_of_def get_task_status_def create_task_def Let_def alist_maps)
  have "sound ?s" unfolding s1 by (intro sound_run sound_step reachable_sound)
  then have "inv_live ?s" by (simp add: sound_def)
  from inv_liveD[OF this a] p obtain t where t: "map_of (tasks ?s) tid = Some t" "status t = RUNNING"
    by auto
  have 2: "fst (execute_task_finish tid (RaisesException msg) ?s) = None \<and>
           get_task_status tid (snd (execute_task_finish tid (RaisesException msg) ?s))
             = Some (t\<lparr>status := FAILED, completed_at := Some (clock ?s), error_message := Some msg\<rparr>)" for msg
    using a p t(1)
    by (simp add: execute_task_finish_def get_task_status_def finally_remove_def
        alist_maps upd_defs Let_def del: map_of_eq_Some_iff)
  have 3: "fst (execute_task_finish tid RaisesCancelled ?s) = None \<and>
           get_task_status tid (snd (execute_task_finish tid RaisesCancelled ?s))
             = Some (t\<lparr>status := CANCELLED, completed_at := Some (clock ?s)\<rparr>)"
    using a p t(1)
    by (simp add: execute_task_finish_def get_task_status_def finally_remove_def
        alist_maps upd_defs Let_def del: map_of_eq_Some_iff)
  from t have "get_task_status tid ?s = Some t" by (simp add: get_task_status_def)
  with 1 2 3 t(2) show ?thesis by blast
qed

text \<open>A task submitted to a fresh registry, resumed once, whose unit of work raises
  \<^verbatim>\<open>Exception("boom")\<close>, or is cancelled.\<close>

theorem C3_witness:
  "create_task ''job'' (run [] (init_service 3 :: nat BackgroundTaskService))
     = (0, snd (create_task ''job'' (init_service 3)))
   \<and> map_of (running_tasks (run [Advance 0] (snd (create_task ''job'' (init_service 3 :: nat BackgroundTaskService))))) 0
     = Some \<lparr>pc = AwaitWork, must_cancel = False\<rparr>
   \<and> status_of 0 (snd (create_task ''job'' (init_service 3 :: nat BackgroundTaskService))) = Some PENDING
   \<and> fst (execute_task_finish 0 (RaisesException ''boom'')
         (run [Advance 0] (snd (create_task ''job'' (init_service 3 :: nat BackgroundTaskService))))) = None
   \<and> get_task_status 0 (snd (execute_task_finish 0 (RaisesException ''boom'')
         (run [Advance 0] (snd (create_task ''job'' (init_service 3 :: nat BackgroundTaskService))))))
     = Some \<lparr>task_id = 0, name = ''job'', status = FAILED, created_at = 0, started_at = Some 0,
             completed_at = Some 0, progress = 0, result = None, error_message = Some ''boom'', metadata = []\<rparr>
   \<and> get_task_status 0 (snd (execute_task_finish 0 RaisesCancelled
         (run [Advance 0] (snd (create_task ''job'' (init_service 3 :: nat BackgroundTaskService))))))
     = Some \<lparr>task_id = 0, name = ''job'', status = CANCELLED, created_at = 0, started_at = Some 0,
             completed_at = Some 0, progress = 0, result = None, error_message = None, metadata = []\<rparr>"
proof -
  have h1: "create_task ''job'' (run [] (init_service 3 :: nat BackgroundTaskService))
     = (0, snd (create_task ''job'' (init_service 3)))"
    by (simp add: run_defs)
  have h2: "map_of (running_tasks (run [Advance 0] (snd (create_task ''job'' (init_service 3 :: nat BackgroundTaskService))))) 0
     = Some \<lparr>pc = AwaitWork, must_cancel = False\<rparr>"
    by (simp add: run_defs)
  have g: "get_task_status 0 (run [Advance 0] (snd (create_task ''job'' (init_service 3 :: nat BackgroundTaskService))))
     = Some \<lparr>task_id = 0, name = ''job'', status = RUNNING, created_at = 0, started_at = Some 0,
             completed_at = None, progress = 0, result = None, error_message = None, metadata = []\<rparr>"
    by (simp add: run_defs get_task_status_def)
  have c: "clock (run [Advance 0] (snd (create_task ''job'' (init_service 3 :: nat BackgroundTaskService)))) = 0"
    by (simp add: run_defs)
  from C3_exception_failed_cancellation_cancelled[OF h1 h2] h1 h2 show ?thesis
    unfolding g c by auto
qed
section \<open>Proofs: per-file processor, batch runner, repository endpoint\<close>


lemmas text_file_defs = is_text_file_def get_file_extension_def suffix_of_def path_name_def lower_def
        lower_char_def text_extensions_def ascii_upper_def ascii_lower_def

text \<open>
  Claim C10. For a path with a text-like extension whose size cannot be read because of an
  error of the operating system (no file at the path: \<^verbatim>\<open>os.path.getsize\<close> raises OSError and
  \<^verbatim>\<open>validate_file_size\<close> answers False), the per-file processor returns the failed result
  whose message reports the size limit; it is the very result returned for a file at that
  path that exceeds the limit.
\<close>

theorem C10_unprobeable_size_reported_as_limit:
  assumes "is_text_file fp" and "getsize e w fp = StatOSError"
  shows "process_single_file_async st e w fp =
           \<lparr>file_path = fp, success = False, documents = [],
            fr_error_message = Some (''File exceeds '' @ str_int (max_file_size_mb st) @ ''MB limit'')\<rparr>
         \<and> (\<forall>e' w' n. getsize e' w' fp = Size n \<and> max_file_size_mb st * 1024 * 1024 < int n \<longrightarrow>
               process_single_file_async st e' w' fp = process_single_file_async st e w fp)"
  using assms
  by (auto simp: process_single_file_async_def process_single_file_try_def validate_file_size_def)

text \<open>A missing \<^verbatim>\<open>missing.py\<close> and a \<^verbatim>\<open>missing.py\<close> of 100 MiB and one byte, under the default limit.\<close>

theorem C10_witness:
  "is_text_file ''missing.py'' \<and> getsize env0 world0 ''missing.py'' = StatOSError
   \<and> process_single_file_async settings env0 world0 ''missing.py'' =
           \<lparr>file_path = ''missing.py'', success = False, documents = [],
            fr_error_message = Some ''File exceeds 100MB limit''\<rparr>
   \<and> getsize env0 world_big ''missing.py'' = Size 104857601
   \<and> process_single_file_async settings env0 world_big ''missing.py''
       = process_single_file_async settings env0 world0 ''missing.py''"
proof -
  have t: "is_text_file ''missing.py''"
    by (simp add: text_file_defs)
  have g: "getsize env0 world0 ''missing.py'' = StatOSError"
    by (simp add: getsize_def world0_def)
  have b: "getsize env0 world_big ''missing.py'' = Size 104857601"
    by (simp add: getsize_def world_big_def world0_def)
  have m: "str_int (max_file_size_mb settings) = ''100''"
    by (simp add: settings_def str_int_def str_nat.simps ascii_digits_def)
  have mx: "max_file_size_mb settings = 100" by (simp add: settings_def)
  from C10_unprobeable_size_reported_as_limit[OF t g, of settings] t g b m mx
  show ?thesis by simp
qed





lemma handler_creates_task:
  "get_task_status (accepted_task_id (fst (process_repository_handler url s)))
     (snd (process_repository_handler url s))
   = Some \<lparr>task_id = next_uuid s, name = ''Processing repository: '' @ url, status = PENDING,
           created_at = clock s, started_at = None, completed_at = None, progress = 0, result = None,
           error_message = None, metadata = []\<rparr>"
  by (simp add: process_repository_handler_def create_task_def Let_def get_task_status_def update_conv')



lemma collect_results_GResult:
  "collect_results (map GResult rs) t =
     \<lparr>all_documents = all_documents t @ concat (map documents (filter success rs)),
      successful_files = successful_files t + length (filter success rs),
      failed_files = failed_files t + length (filter (\<lambda>r. \<not> success r) rs)\<rparr>"
  by (induction rs arbitrary: t) simp_all

lemma batch_tally_eq:
  "batch_tally st e w file_paths =
     \<lparr>all_documents = concat (map (\<lambda>fp. documents (process_single_file_async st e w fp))
                          (filter (\<lambda>fp. success (process_single_file_async st e w fp)) file_paths)),
      successful_files = length (filter (\<lambda>fp. success (process_single_file_async st e w fp)) file_paths),
      failed_files = length (filter (\<lambda>fp. \<not> success (process_single_file_async st e w fp)) file_paths)\<rparr>"
proof -
  have h: "gather_files st e w file_paths = map GResult (map (process_single_file_async st e w) file_paths)"
    by (simp add: gather_files_def)
  show ?thesis
    unfolding batch_tally_def h collect_results_GResult
    by (simp add: filter_map o_def)
qed

lemma unreadable_fails: "unreadable e w fp \<Longrightarrow> \<not> success (process_single_file_async st e w fp)"
  by (auto simp: unreadable_def process_single_file_async_def process_single_file_try_def
      load_document_def validate_file_size_def getsize_def Let_def
      split: option.splits node.splits sum.splits if_splits)

lemma valid_succeeds:
  "valid_file st e w fp \<Longrightarrow> success (process_single_file_async st e w fp) \<and>
     documents (process_single_file_async st e w fp) =
       map (add_file_metadata e fp) (projr (create_text_splitter st e fp (load_document e w fp)))"
  by (auto simp: valid_file_def process_single_file_async_def process_single_file_try_def Let_def
      split: sum.splits)

lemma source_file_metadata:
  "map_of (doc_metadata (add_file_metadata e fp d)) ''source_file'' = Some (MStr fp)"
  by (simp add: add_file_metadata_def update_conv')

lemma all_or_nothing:
  assumes "length (filter P xs) + length (filter Q xs) = length xs" and "\<And>x. P x \<Longrightarrow> \<not> Q x"
  shows "\<forall>x \<in> set xs. P x \<or> Q x"
  using assms(1)
proof (induction xs)
  case Nil
  then show ?case by simp
next
  case (Cons x xs)
  have le: "length (filter P xs) + length (filter Q xs) \<le> length xs"
  proof -
    have "length (filter P xs) + length (filter Q xs) = length (filter (\<lambda>x. P x \<or> Q x) xs)"
      using assms(2) by (induction xs) auto
    then show ?thesis by simp
  qed
  show ?case
  proof (cases "P x \<or> Q x")
    case True
    with Cons.prems assms(2)[of x] have "length (filter P xs) + length (filter Q xs) = length xs"
      by (auto split: if_splits)
    with Cons.IH True show ?thesis by simp
  next
    case False
    with Cons.prems le show ?thesis by simp
  qed
qed

text \<open>
  Claim C4. For a batch of five paths of which one is unreadable and four are valid, in any
  order, the collecting loop counts 4 successful files and 1 failed file, and the
  aggregated list holds exactly the chunks of the four valid files, each stamped with its
  source file. The failure does not abort the batch: the result is returned, with
  \<^verbatim>\<open>documents_failed\<close> 1 and \<^verbatim>\<open>documents_processed\<close> the number of aggregated chunks.
\<close>

theorem C4_one_unreadable_four_valid:
  assumes "length file_paths = 5"
    and "length (filter (unreadable e w) file_paths) = 1"
    and "length (filter (valid_file st e w) file_paths) = 4"
  shows "successful_files (batch_tally st e w file_paths) = 4
       \<and> failed_files (batch_tally st e w file_paths) = 1
       \<and> all_documents (batch_tally st e w file_paths) =
           concat (map (\<lambda>fp. documents (process_single_file_async st e w fp))
                       (filter (valid_file st e w) file_paths))
       \<and> (\<forall>d \<in> set (all_documents (batch_tally st e w file_paths)).
             \<exists>fp \<in> set file_paths. valid_file st e w fp \<and> map_of (doc_metadata d) ''source_file'' = Some (MStr fp))
       \<and> documents_failed (process_files_concurrent st e w file_paths) = 1
       \<and> documents_processed (process_files_concurrent st e w file_paths) =
           length (all_documents (batch_tally st e w file_paths))"
proof -
  let ?ok = "\<lambda>fp. success (process_single_file_async st e w fp)"
  have disj: "\<And>fp. valid_file st e w fp \<Longrightarrow> \<not> unreadable e w fp"
    using unreadable_fails valid_succeeds by blast
  from assms have "length (filter (valid_file st e w) file_paths) + length (filter (unreadable e w) file_paths)
      = length file_paths" by simp
  from all_or_nothing[OF this disj]
  have each: "\<forall>fp \<in> set file_paths. valid_file st e w fp \<or> unreadable e w fp" .
  have iff: "\<And>fp. fp \<in> set file_paths \<Longrightarrow> ?ok fp = valid_file st e w fp"
    using each unreadable_fails valid_succeeds by blast
  have f1: "filter ?ok file_paths = filter (valid_file st e w) file_paths"
    by (rule filter_cong[OF refl]) (rule iff)
  have f2: "filter (\<lambda>fp. \<not> ?ok fp) file_paths = filter (unreadable e w) file_paths"
  proof (rule filter_cong[OF refl])
    fix fp assume "fp \<in> set file_paths"
    with each iff disj show "(\<not> ?ok fp) = unreadable e w fp" by blast
  qed
  have t: "batch_tally st e w file_paths =
     \<lparr>all_documents = concat (map (\<lambda>fp. documents (process_single_file_async st e w fp))
                          (filter (valid_file st e w) file_paths)),
      successful_files = 4, failed_files = 1\<rparr>"
    unfolding batch_tally_eq f1 f2 using assms by simp
  have src: "\<forall>d \<in> set (all_documents (batch_tally st e w file_paths)).
      \<exists>fp \<in> set file_paths. valid_file st e w fp \<and> map_of (doc_metadata d) ''source_file'' = Some (MStr fp)"
  proof
    fix d assume "d \<in> set (all_documents (batch_tally st e w file_paths))"
    with t obtain fp where fp: "fp \<in> set file_paths" "valid_file st e w fp"
      and d: "d \<in> set (documents (process_single_file_async st e w fp))" by auto
    from valid_succeeds[OF fp(2)] d obtain d0 where "d = add_file_metadata e fp d0" by auto
    with fp show "\<exists>fp \<in> set file_paths. valid_file st e w fp \<and> map_of (doc_metadata d) ''source_file'' = Some (MStr fp)"
      using source_file_metadata by blast
  qed
  from assms(1) have ne: "file_paths \<noteq> []" by auto
  from t src ne show ?thesis
    by (simp add: process_files_concurrent_def Let_def)
qed

lemmas batch_eval = unreadable_def valid_file_def validate_file_size_def getsize_def load_document_def
  create_text_splitter_def env_batch_def env0_def world_batch_def world0_def settings_def text_file_defs

text \<open>Five files, the third of which cannot be decoded.\<close>

theorem C4_witness:
  "length batch_paths = 5
   \<and> filter (unreadable env_batch world_batch) batch_paths = [''docs/bad.md'']
   \<and> filter (valid_file settings env_batch world_batch) batch_paths
        = [''src/a.py'', ''src/b.js'', ''README.md'', ''notes.txt'']
   \<and> successful_files (batch_tally settings env_batch world_batch batch_paths) = 4
   \<and> failed_files (batch_tally settings env_batch world_batch batch_paths) = 1
   \<and> documents_failed (process_files_concurrent settings env_batch world_batch batch_paths) = 1"
proof -
  have l: "length batch_paths = 5" by (simp add: batch_paths_def)
  have u: "filter (unreadable env_batch world_batch) batch_paths = [''docs/bad.md'']"
    by (simp add: batch_paths_def batch_eval)
  have v: "filter (valid_file settings env_batch world_batch) batch_paths
        = [''src/a.py'', ''src/b.js'', ''README.md'', ''notes.txt'']"
    by (simp add: batch_paths_def batch_eval)
  have u1: "length (filter (unreadable env_batch world_batch) batch_paths) = 1" by (simp add: u)
  have v4: "length (filter (valid_file settings env_batch world_batch) batch_paths) = 4" by (simp add: v)
  from C4_one_unreadable_four_valid[OF l u1 v4] l u v show ?thesis by simp
qed

section \<open>Proofs: paths, the file system, and the statistics of an upload\<close>

lemma split_on_nonempty: "split_on sep s \<noteq> []"
  by (induction s) (auto split: list.splits)

lemma split_on_no_sep: "sep \<notin> set s \<Longrightarrow> split_on sep s = [s]"
  by (induction s) auto

lemma split_on_append: "split_on sep (xs @ sep # ys) = split_on sep xs @ split_on sep ys"
proof (induction xs)
  case Nil
  then show ?case by simp
next
  case (Cons c xs)
  obtain p ps where "split_on sep xs = p # ps"
    using split_on_nonempty[of sep xs] by (cases "split_on sep xs") auto
  with Cons show ?case by simp
qed

lemma last_split_on: "sep \<notin> set ys \<Longrightarrow> last (split_on sep (xs @ sep # ys)) = ys"
  by (simp add: split_on_append split_on_no_sep)

lemma rfind_bound: "rfind x s = Some i \<Longrightarrow> i < length s \<and> s ! i = x"
  by (induction s arbitrary: i) (auto split: option.splits if_splits)

lemma rfind_None: "rfind x s = None \<longleftrightarrow> x \<notin> set s"
  by (induction s) (auto split: option.splits)

lemma length_rstrip_slash: "length (rstrip_slash p) \<le> length p"
proof -
  have "length (dropWhile (\<lambda>c. c = CHR ''/'') (rev p)) \<le> length (rev p)"
    by (rule length_dropWhile_le)
  then show ?thesis by (simp add: rstrip_slash_def)
qed

lemma dirname_shorter:
  assumes "p \<noteq> []" and "last p \<noteq> CHR ''/''"
  shows "length (dirname p) < length p"
proof (cases "rfind CHR ''/'' p")
  case None
  with assms show ?thesis by (simp add: dirname_def)
next
  case (Some i)
  from rfind_bound[OF Some] have i: "i < length p" "p ! i = CHR ''/''" by auto
  have "Suc i \<noteq> length p"
  proof
    assume "Suc i = length p"
    then have "length p - 1 = i" by simp
    with assms(1) i(2) have "last p = CHR ''/''" by (simp add: last_conv_nth)
    with assms(2) show False by simp
  qed
  with i have lt: "length (take (Suc i) p) < length p" by simp
  have "length (dirname p) \<le> length (take (Suc i) p)"
    using length_rstrip_slash[of "take (Suc i) p"] by (simp add: dirname_def Some Let_def)
  with lt show ?thesis by simp
qed

text \<open>A file name without a slash joined to a directory.\<close>

lemma path_join_cases:
  assumes "nm \<noteq> []" and "CHR ''/'' \<notin> set nm"
  shows "path_join d nm = d @ nm \<and> (d = [] \<or> last d = CHR ''/'') \<or> path_join d nm = d @ ''/'' @ nm"
  using assms by (cases nm) (auto simp: path_join_def)

lemma path_join_last:
  assumes "nm \<noteq> []" and "CHR ''/'' \<notin> set nm"
  shows "path_join d nm \<noteq> [] \<and> last (path_join d nm) = last nm \<and> length d < length (path_join d nm)"
  using path_join_cases[OF assms, of d] assms by auto

lemma path_join_inj:
  assumes "nm \<noteq> []" "CHR ''/'' \<notin> set nm" "nm' \<noteq> []" "CHR ''/'' \<notin> set nm'"
  shows "path_join d nm = path_join d nm' \<longleftrightarrow> nm = nm'"
  using assms by (cases nm; cases nm') (auto simp: path_join_def)

lemma path_join_length:
  assumes "nm \<noteq> []" "CHR ''/'' \<notin> set nm" "nm' \<noteq> []" "CHR ''/'' \<notin> set nm'"
  shows "int (length (path_join d nm)) - int (length nm) = int (length (path_join d nm')) - int (length nm')"
  using assms by (cases nm; cases nm') (auto simp: path_join_def)

lemma path_name_alt:
  "path_name p =
     (if filter (\<lambda>c. c \<noteq> [] \<and> c \<noteq> ''.'') (split_on CHR ''/'' p) = [] then []
      else last (filter (\<lambda>c. c \<noteq> [] \<and> c \<noteq> ''.'') (split_on CHR ''/'' p)))"
  by (simp add: path_name_def split: list.splits)

lemma path_name_join:
  assumes "nm \<noteq> []" and "CHR ''/'' \<notin> set nm" and "nm \<noteq> ''.''"
  shows "path_name (path_join d nm) = nm"
proof -
  from path_join_cases[OF assms(1,2), of d]
  consider (empty) "path_join d nm = nm" | (slash) pre where "path_join d nm = pre @ CHR ''/'' # nm"
  proof (elim disjE conjE)
    assume j: "path_join d nm = d @ nm" and "d = []"
    then show ?thesis using that(1) by simp
  next
    assume j: "path_join d nm = d @ nm" and l: "last d = CHR ''/''"
    show ?thesis
    proof (cases "d = []")
      case True
      with j that(1) show ?thesis by simp
    next
      case False
      with l have "d = butlast d @ [CHR ''/'']" by (metis append_butlast_last_id)
      then have "d @ nm = butlast d @ CHR ''/'' # nm" by (metis append_Cons append_Nil append_assoc)
      with j that(2) show ?thesis by simp
    qed
  next
    assume "path_join d nm = d @ ''/'' @ nm"
    then show ?thesis using that(2)[of d] by simp
  qed
  then show ?thesis
  proof cases
    case empty
    with assms show ?thesis by (simp add: path_name_alt split_on_no_sep)
  next
    case (slash pre)
    have "filter (\<lambda>c. c \<noteq> [] \<and> c \<noteq> ''.'') (split_on CHR ''/'' (pre @ CHR ''/'' # nm))
        = filter (\<lambda>c. c \<noteq> [] \<and> c \<noteq> ''.'') (split_on CHR ''/'' pre) @ [nm]"
      using assms by (simp add: split_on_append split_on_no_sep)
    then show ?thesis
      by (simp add: path_name_alt slash)
  qed
qed

lemma lower_append: "lower (xs @ ys) = lower xs @ lower ys"
  by (simp add: lower_def)

subsection \<open>How the file-system operations change a world\<close>

lemma ensure_directory_fs:
  "map_of (fs (ensure_directory x w)) k = (if k = x \<and> map_of (fs w) x = None then Some Dir else map_of (fs w) k)"
  by (simp add: ensure_directory_def path_exists_def update_conv')

lemma ensure_directory_other [simp]:
  "read_only (ensure_directory x w) = read_only w" "uuid_draws (ensure_directory x w) = uuid_draws w"
  "strerror (ensure_directory x w) = strerror w"
  by (simp_all add: ensure_directory_def)

lemma ensure_if_missing_fs:
  assumes "k \<noteq> x \<or> map_of (fs w) k \<noteq> None"
  shows "map_of (fs (if x \<noteq> [] \<and> \<not> path_exists w x then ensure_directory x w else w)) k = map_of (fs w) k"
  using assms by (auto simp: ensure_directory_fs)

lemma ensure_if_missing_other [simp]:
  "read_only (if x \<noteq> [] \<and> \<not> path_exists w x then ensure_directory x w else w) = read_only w"
  by simp

lemma write_file_ok:
  assumes "p \<notin> set (read_only w)" and "map_of (fs w) p \<noteq> Some Dir"
  shows "write_file p c w = (True, w\<lparr>fs := AList.update p (File c) (fs w)\<rparr>)"
  using assms by (simp add: write_file_def is_dir_def)

lemma safe_names: "safe_filename ''a.py'' = ''a.py''" "safe_filename ''b.png'' = ''b.png''"
  by (simp_all add: safe_filename_def unsafe_chars_def)

lemma ext_py: "is_text_file (path_join d ''a.py'')"
proof -
  have "path_name (path_join d ''a.py'') = ''a.py''" by (rule path_name_join) simp_all
  then show ?thesis
    by (simp add: is_text_file_def get_file_extension_def suffix_of_def lower_def lower_char_def
        text_extensions_def ascii_upper_def ascii_lower_def)
qed

lemma ext_png: "\<not> is_text_file (path_join d ''b.png'')"
proof -
  have "path_name (path_join d ''b.png'') = ''b.png''" by (rule path_name_join) simp_all
  then show ?thesis
    by (simp add: is_text_file_def get_file_extension_def suffix_of_def lower_def lower_char_def
        text_extensions_def ascii_upper_def ascii_lower_def)
qed

lemma language_py: "get_language_from_extension (path_join d ''a.py'') = PYTHON"
proof -
  from path_join_cases[of "''a.py''" d] obtain pre where pre: "path_join d ''a.py'' = pre @ ''a.py''"
    by auto
  have "lower (pre @ ''a.py'') = (lower pre @ ''a'') @ CHR ''.'' # ''py''"
    by (simp add: lower_def lower_char_def ascii_upper_def ascii_lower_def)
  then have "last (split_on CHR ''.'' (lower (pre @ ''a.py''))) = ''py''"
    using last_split_on[of "CHR ''.''" "''py''" "lower pre @ ''a''"] by simp
  then show ?thesis
    by (simp add: get_language_from_extension_def pre language_map_def)
qed

lemma save_one:
  assumes nm: "safe_filename nm = nm" "nm \<noteq> []" "CHR ''/'' \<notin> set nm"
    and ro: "path_join d nm \<notin> set (read_only w)"
    and nd: "map_of (fs w) (path_join d nm) \<noteq> Some Dir"
  shows "\<exists>w'. save_items d ((nm, c) # items) (acc, w) = save_items d items (acc @ [path_join d nm], w')
    \<and> read_only w' = read_only w
    \<and> map_of (fs w') (path_join d nm) = Some (File c)
    \<and> (\<forall>k. k \<noteq> path_join d nm \<longrightarrow> (length k \<ge> length (path_join d nm) \<or> map_of (fs w) k \<noteq> None)
           \<longrightarrow> map_of (fs w') k = map_of (fs w) k)"
proof -
  let ?p = "path_join d nm"
  let ?dd = "dirname ?p"
  let ?w1 = "if ?dd \<noteq> [] \<and> \<not> path_exists w ?dd then ensure_directory ?dd w else w"
  from nm(2) have "last nm \<in> set nm" by (rule last_in_set)
  with nm(3) have "last nm \<noteq> CHR ''/''" by auto
  with path_join_last[OF nm(2,3), of d] have pl: "?p \<noteq> []" "last ?p \<noteq> CHR ''/''"
    by auto
  from dirname_shorter[OF pl] have sh: "length ?dd < length ?p" .
  then have ne: "?p \<noteq> ?dd" by auto
  have m1: "map_of (fs ?w1) ?p = map_of (fs w) ?p"
    by (rule ensure_if_missing_fs) (simp add: ne)
  have ro1: "?p \<notin> set (read_only ?w1)" using ro by simp
  from nd m1 have nd1: "map_of (fs ?w1) ?p \<noteq> Some Dir" by simp
  let ?w2 = "?w1\<lparr>fs := AList.update ?p (File c) (fs ?w1)\<rparr>"
  have wr: "write_file ?p c ?w1 = (True, ?w2)" by (rule write_file_ok[OF ro1 nd1])
  have eq: "save_items d ((nm, c) # items) (acc, w) = save_items d items (acc @ [?p], ?w2)"
    using wr by (simp add: nm(1) Let_def)
  have other: "map_of (fs ?w2) k = map_of (fs w) k"
    if "k \<noteq> ?p" and "length k \<ge> length ?p \<or> map_of (fs w) k \<noteq> None" for k
  proof -
    from that(2) sh have "k \<noteq> ?dd \<or> map_of (fs w) k \<noteq> None" by auto
    from ensure_if_missing_fs[OF this] that(1) show ?thesis by (simp add: update_conv')
  qed
  have "read_only ?w2 = read_only w" by simp
  moreover have "map_of (fs ?w2) ?p = Some (File c)" by (simp add: update_conv')
  ultimately show ?thesis using eq other by blast
qed

lemma bytes_two_files:
  assumes d: "d = path_join (temp_files_dir st) (''upload_'' @ uuid4_hex e (uuid_draws w))"
    and nofile: "\<forall>c. map_of (fs w) d \<noteq> Some (File c)"
    and wa: "path_join d ''a.py'' \<notin> set (read_only w)" "\<not> is_dir w (path_join d ''a.py'')"
    and wb: "path_join d ''b.png'' \<notin> set (read_only w)" "\<not> is_dir w (path_join d ''b.png'')"
    and size: "int (length ca) \<le> max_file_size_mb st * 1024 * 1024"
    and load: "loader e (path_join d ''a.py'') ca = Inr docs" "docs \<noteq> []"
    and split: "split_documents e PYTHON (chunk_size st) (chunk_overlap st) docs = Inr chunks"
  shows "fst (process_uploaded_file_bytes st e [(''a.py'', ca), (''b.png'', cb)] w) =
     Inr \<lparr>total_files = 2, processed_files = length chunks, skipped_files = 0, failed_files_stat = 1,
          processing_time_seconds = time_end e - time_start e\<rparr>"
proof -
  let ?pa = "path_join d ''a.py''" and ?pb = "path_join d ''b.png''"
  let ?w0 = "w\<lparr>uuid_draws := Suc (uuid_draws w)\<rparr>"
  let ?w1 = "ensure_directory d ?w0"
  have dDir: "map_of (fs ?w1) d = Some Dir"
  proof (cases "map_of (fs w) d")
    case None
    then show ?thesis by (simp add: ensure_directory_fs)
  next
    case (Some a)
    with nofile have "a = Dir" by (cases a) auto
    with Some show ?thesis by (simp add: ensure_directory_fs)
  qed
  have la: "length d < length ?pa" and lb: "length d < length ?pb"
    using path_join_last[of "''a.py''" d] path_join_last[of "''b.png''" d] by auto
  have lab: "length ?pa < length ?pb"
    using path_join_length[of "''a.py''" "''b.png''" d] by simp
  from lab have nab: "?pb \<noteq> ?pa" by auto
  from la have nda: "d \<noteq> ?pa" by auto
  from lb have ndb: "d \<noteq> ?pb" by auto
  have a1: "?pa \<notin> set (read_only ?w1)" using wa(1) by simp
  have a2: "map_of (fs ?w1) ?pa \<noteq> Some Dir"
    using wa(2) la by (auto simp: ensure_directory_fs is_dir_def)
  from save_one[OF safe_names(1) _ _ a1 a2, of ca "[(''b.png'', cb)]" "[]"]
  obtain w2 where s2: "save_items d [(''a.py'', ca), (''b.png'', cb)] ([], ?w1)
        = save_items d [(''b.png'', cb)] ([?pa], w2)"
    and r2: "read_only w2 = read_only ?w1"
    and fa2: "map_of (fs w2) ?pa = Some (File ca)"
    and o2: "\<And>k. k \<noteq> ?pa \<Longrightarrow> length k \<ge> length ?pa \<or> map_of (fs ?w1) k \<noteq> None
                \<Longrightarrow> map_of (fs w2) k = map_of (fs ?w1) k"
    by auto
  have b1: "?pb \<notin> set (read_only w2)" using wb(1) r2 by simp
  have "map_of (fs w2) ?pb = map_of (fs ?w1) ?pb" using o2[OF nab] lab by auto
  then have b2: "map_of (fs w2) ?pb \<noteq> Some Dir"
    using wb(2) lb by (auto simp: ensure_directory_fs is_dir_def)
  from save_one[OF safe_names(2) _ _ b1 b2, of cb "[]" "[?pa]"]
  obtain w3 where s3: "save_items d [(''b.png'', cb)] ([?pa], w2) = ([?pa, ?pb], w3)"
    and fb3: "map_of (fs w3) ?pb = Some (File cb)"
    and o3: "\<And>k. k \<noteq> ?pb \<Longrightarrow> length k \<ge> length ?pb \<or> map_of (fs w2) k \<noteq> None
                \<Longrightarrow> map_of (fs w3) k = map_of (fs w2) k"
    by auto
  have fa3: "map_of (fs w3) ?pa = Some (File ca)" using o3[OF nab[symmetric]] fa2 by auto
  have d2: "map_of (fs w2) d = Some Dir" using o2[OF nda] dDir by auto
  then have d3: "map_of (fs w3) d = Some Dir" using o3[OF ndb] by auto
  have saved: "save_items d [(''a.py'', ca), (''b.png'', cb)] ([], ?w1) = ([?pa, ?pb], w3)"
    using s2 s3 by simp
  have ra: "process_single_file_async st e w3 ?pa =
      \<lparr>file_path = ?pa, success = True, documents = map (add_file_metadata e ?pa) chunks,
       fr_error_message = None\<rparr>"
    using size load split fa3
    by (simp add: process_single_file_async_def process_single_file_try_def ext_py validate_file_size_def
        getsize_def load_document_def create_text_splitter_def language_py)
  have rb: "process_single_file_async st e w3 ?pb =
      \<lparr>file_path = ?pb, success = False, documents = [], fr_error_message = Some ''Not a text file''\<rparr>"
    by (simp add: process_single_file_async_def process_single_file_try_def ext_png)
  have pr: "documents_processed (process_files_concurrent st e w3 [?pa, ?pb]) = length chunks
      \<and> documents_failed (process_files_concurrent st e w3 [?pa, ?pb]) = 1
      \<and> processing_time (process_files_concurrent st e w3 [?pa, ?pb]) = time_end e - time_start e"
    by (simp add: process_files_concurrent_def batch_tally_def gather_files_def ra rb Let_def)
  have cl: "fst (cleanup_directory d w3) = None"
    using d3 by (simp add: cleanup_directory_def)
  have dr: "draw_uuid e w = (uuid4_hex e (uuid_draws w), ?w0)" by (simp add: draw_uuid_def)
  obtain w4 where c4: "cleanup_directory d w3 = (None, w4)"
    using cl by (cases "cleanup_directory d w3") auto
  show ?thesis
    using pr c4 saved unfolding d
    by (simp add: process_uploaded_file_bytes_def dr finally_cleanup_def Let_def
          del: save_items.simps)
qed

lemma env0_fields:
  "uuid4_hex env0 n = str_nat n"
  "loader env0 p c = Inr [\<lparr>page_content = c, doc_metadata = []\<rparr>]"
  "split_documents env0 l cs co ds = Inr ds"
  "store_documents env0 ds = True"
  "time_start env0 = 0" "time_end env0 = 0" "dir_size env0 = 4096"
  by (simp_all add: env0_def)

lemma settings_fields:
  "temp_files_dir settings = ''./temp_files''" "temp_repo_dir settings = ''./temp_repo''"
  "max_file_size_mb settings = 100" "chunk_size settings = 2000" "chunk_overlap settings = 200"
  by (simp_all add: settings_def)

lemma world0_fields:
  "fs world0 = [(''.'', Dir)]" "read_only world0 = []" "uuid_draws world0 = 0"
  by (simp_all add: world0_def)

lemma str_nat_digits: "str_nat 0 = ''0''" "str_nat (Suc 0) = ''1''"
  by (simp_all add: str_nat.simps ascii_digits_def)

lemma upload_dir0:
  "path_join (temp_files_dir settings) (''upload_'' @ uuid4_hex env0 (uuid_draws world0)) = ''./temp_files/upload_0''"
  "path_join ''./temp_files/upload_0'' ''a.py'' = ''./temp_files/upload_0/a.py''"
  "path_join ''./temp_files/upload_0'' ''b.png'' = ''./temp_files/upload_0/b.png''"
  by (simp_all add: settings_fields env0_fields world0_fields str_nat_digits path_join_def)

text \<open>
  Claim C6 says that \<^verbatim>\<open>skipped_files\<close> counts \<^verbatim>\<open>b.png\<close>. On the path the upload endpoint
  takes, \<^verbatim>\<open>process_uploaded_file_bytes\<close>, the statistics for the batch have
  \<^verbatim>\<open>skipped_files\<close> 0 and \<^verbatim>\<open>failed_files\<close> 1.
\<close>

theorem C6_counterexample:
  "fst (process_uploaded_file_bytes settings env0 [(''a.py'', code_200), (''b.png'', png_bytes)] world0) =
     Inr \<lparr>total_files = 2, processed_files = 1, skipped_files = 0, failed_files_stat = 1,
          processing_time_seconds = 0\<rparr>"
proof -
  have "fst (process_uploaded_file_bytes settings env0 [(''a.py'', code_200), (''b.png'', png_bytes)] world0) =
     Inr \<lparr>total_files = 2, processed_files = length [\<lparr>page_content = code_200, doc_metadata = []\<rparr>],
          skipped_files = 0, failed_files_stat = 1,
          processing_time_seconds = time_end env0 - time_start env0\<rparr>"
    by (rule bytes_two_files[where d = "''./temp_files/upload_0''"])
       (simp_all add: upload_dir0 world0_fields is_dir_def env0_fields settings_fields code_200_def
          str_nat_digits path_join_def)
  then show ?thesis by (simp add: env0_fields)
qed

text \<open>
  Claim C6, amended. For the batch of \<^verbatim>\<open>a.py\<close> and \<^verbatim>\<open>b.png\<close>, when both files can be saved
  under the per-task directory and \<^verbatim>\<open>a.py\<close> is within the size limit, loads and splits into
  chunks, the statistics are: two files in total, \<^verbatim>\<open>processed_files\<close> the number of chunks
  of \<^verbatim>\<open>a.py\<close>, \<^verbatim>\<open>skipped_files\<close> 0 and \<^verbatim>\<open>failed_files\<close> 1: \<^verbatim>\<open>b.png\<close>, rejected for its
  extension, is counted as failed.
\<close>

theorem C6_non_text_file_counted_as_failed:
  assumes "d = path_join (temp_files_dir st) (''upload_'' @ uuid4_hex e (uuid_draws w))"
    and "\<forall>c. map_of (fs w) d \<noteq> Some (File c)"
    and "path_join d ''a.py'' \<notin> set (read_only w)" and "\<not> is_dir w (path_join d ''a.py'')"
    and "path_join d ''b.png'' \<notin> set (read_only w)" and "\<not> is_dir w (path_join d ''b.png'')"
    and "int (length ca) \<le> max_file_size_mb st * 1024 * 1024"
    and "loader e (path_join d ''a.py'') ca = Inr docs" and "docs \<noteq> []"
    and "split_documents e PYTHON (chunk_size st) (chunk_overlap st) docs = Inr chunks"
  shows "fst (process_uploaded_file_bytes st e [(''a.py'', ca), (''b.png'', cb)] w) =
     Inr \<lparr>total_files = 2, processed_files = length chunks, skipped_files = 0, failed_files_stat = 1,
          processing_time_seconds = time_end e - time_start e\<rparr>"
  using assms by (rule bytes_two_files)

text \<open>
  The batch on an empty file system, with the splitter that cuts in two.
\<close>

theorem C6_witness:
  "''./temp_files/upload_0'' = path_join (temp_files_dir settings) (''upload_'' @ uuid4_hex env_two_chunks (uuid_draws world0))
   \<and> (\<forall>c. map_of (fs world0) ''./temp_files/upload_0'' \<noteq> Some (File c))
   \<and> path_join ''./temp_files/upload_0'' ''a.py'' \<notin> set (read_only world0)
   \<and> \<not> is_dir world0 (path_join ''./temp_files/upload_0'' ''a.py'')
   \<and> path_join ''./temp_files/upload_0'' ''b.png'' \<notin> set (read_only world0)
   \<and> \<not> is_dir world0 (path_join ''./temp_files/upload_0'' ''b.png'')
   \<and> int (length code_200) \<le> max_file_size_mb settings * 1024 * 1024
   \<and> loader env_two_chunks (path_join ''./temp_files/upload_0'' ''a.py'') code_200
        = Inr [\<lparr>page_content = code_200, doc_metadata = []\<rparr>]
   \<and> split_documents env_two_chunks PYTHON (chunk_size settings) (chunk_overlap settings)
        [\<lparr>page_content = code_200, doc_metadata = []\<rparr>]
        = Inr [\<lparr>page_content = code_200, doc_metadata = []\<rparr>, \<lparr>page_content = code_200, doc_metadata = []\<rparr>]
   \<and> fst (process_uploaded_file_bytes settings env_two_chunks [(''a.py'', code_200), (''b.png'', png_bytes)] world0) =
     Inr \<lparr>total_files = 2, processed_files = 2, skipped_files = 0, failed_files_stat = 1,
          processing_time_seconds = 0\<rparr>"
proof -
  have h1: "''./temp_files/upload_0'' = path_join (temp_files_dir settings) (''upload_'' @ uuid4_hex env_two_chunks (uuid_draws world0))"
    by (simp add: env_two_chunks_def settings_fields env0_fields world0_fields str_nat_digits path_join_def)
  have h2: "\<forall>c. map_of (fs world0) ''./temp_files/upload_0'' \<noteq> Some (File c)"
    by (simp add: world0_fields)
  have h3: "path_join ''./temp_files/upload_0'' ''a.py'' \<notin> set (read_only world0)"
    and h5: "path_join ''./temp_files/upload_0'' ''b.png'' \<notin> set (read_only world0)"
    by (simp_all add: world0_fields)
  have h4: "\<not> is_dir world0 (path_join ''./temp_files/upload_0'' ''a.py'')"
    and h6: "\<not> is_dir world0 (path_join ''./temp_files/upload_0'' ''b.png'')"
    by (simp_all add: upload_dir0 world0_fields is_dir_def)
  have h7: "int (length code_200) \<le> max_file_size_mb settings * 1024 * 1024"
    by (simp add: code_200_def settings_fields)
  have h8: "loader env_two_chunks (path_join ''./temp_files/upload_0'' ''a.py'') code_200
        = Inr [\<lparr>page_content = code_200, doc_metadata = []\<rparr>]"
    by (simp add: env_two_chunks_def env0_def)
  have h9: "[\<lparr>page_content = code_200, doc_metadata = []\<rparr>] \<noteq> []" by simp
  have h10: "split_documents env_two_chunks PYTHON (chunk_size settings) (chunk_overlap settings)
        [\<lparr>page_content = code_200, doc_metadata = []\<rparr>]
        = Inr [\<lparr>page_content = code_200, doc_metadata = []\<rparr>, \<lparr>page_content = code_200, doc_metadata = []\<rparr>]"
    by (simp add: env_two_chunks_def)
  have t: "time_end env_two_chunks - time_start env_two_chunks = 0"
    by (simp add: env_two_chunks_def env0_def)
  from C6_non_text_file_counted_as_failed[OF h1 h2 h3 h4 h5 h6 h7 h8 h9 h10, of png_bytes]
    h1 h2 h3 h4 h5 h6 h7 h8 h10 t
  show ?thesis by simp
qed

section \<open>Proofs: routing of uploads\<close>









lemma remove_partial_other [simp]: "read_only (remove_partial p w) = read_only w"
  by (simp add: remove_partial_def split: option.splits node.splits)

















section \<open>Proofs: removal of scratch directories\<close>

lemma cleanup_directory_removes: "\<not> is_dir (snd (cleanup_directory d w)) d"
  by (auto simp: cleanup_directory_def is_dir_def rmtree_def map_of_filter_keys
      split: option.splits node.splits)

lemma finally_cleanup_removes: "\<not> is_dir (snd (finally_cleanup d rw)) d"
  using cleanup_directory_removes[of d "snd rw"]
  by (cases "cleanup_directory d (snd rw)") (auto simp: finally_cleanup_def split: option.splits)

lemma cleanup_removes_tree:
  assumes "is_dir w d" and "p = d \<or> below d p"
  shows "\<not> path_exists (snd (cleanup_directory d w)) p"
  using assms
  by (auto simp: cleanup_directory_def is_dir_def path_exists_def rmtree_def map_of_filter_keys)

lemma cleanup_keeps_the_rest:
  assumes "p \<noteq> d" and "\<not> below d p"
  shows "map_of (fs (snd (cleanup_directory d w))) p = map_of (fs w) p"
  using assms
  by (auto simp: cleanup_directory_def rmtree_def map_of_filter_keys split: option.splits node.splits)

lemma bg_worker_world:
  assumes "d \<noteq> []"
  shows "snd (bg_worker fp st e items paths (Some d) w)
           = snd (cleanup_directory d (snd (bg_worker_try fp st e items paths (Some d) w)))"
  using assms
  by (cases "cleanup_directory d (snd (bg_worker_try fp st e items paths (Some d) w))")
     (auto simp: bg_worker_def Let_def split: option.splits)

lemma process_repository_world:
  assumes "validate_git_url e url"
  shows "snd (process_repository st e pdf url w)
           = snd (cleanup_directory (temp_repo_dir st) (snd (process_repository_try st e pdf url w)))"
  using assms
  by (cases "cleanup_directory (temp_repo_dir st) (snd (process_repository_try st e pdf url w))")
     (auto simp: process_repository_def finally_cleanup_def split: option.splits)

text \<open>
  Claim C8. Whatever the file processor's methods do (return or raise), when \<^verbatim>\<open>_bg_worker\<close>
  exits the per-task directory it was given is no longer a directory; and if it was a
  directory when the \<^verbatim>\<open>finally\<close> clause was reached, nothing is left at its path or at any
  path below it: the spilled uploads are gone with it. Likewise, whatever the clone and the
  processing of the tree do, when \<^verbatim>\<open>process_repository\<close> exits after a URL that passed
  validation, the clone directory is no longer a directory; and if it was one when the
  \<^verbatim>\<open>finally\<close> clause was reached, nothing is left at its path or below it: the whole clone
  tree is gone.
\<close>

theorem C8_scratch_directories_removed_on_exit:
  "(d \<noteq> [] \<longrightarrow>
      \<not> is_dir (snd (bg_worker fp st e items paths (Some d) w)) d \<and>
      (is_dir (snd (bg_worker_try fp st e items paths (Some d) w)) d \<longrightarrow>
         (\<forall>p. p = d \<or> below d p \<longrightarrow>
            \<not> path_exists (snd (bg_worker fp st e items paths (Some d) w)) p))) \<and>
   (validate_git_url e url \<longrightarrow>
      \<not> is_dir (snd (process_repository st e process_directory_files url w')) (temp_repo_dir st) \<and>
      (is_dir (snd (process_repository_try st e process_directory_files url w')) (temp_repo_dir st) \<longrightarrow>
         (\<forall>p. p = temp_repo_dir st \<or> below (temp_repo_dir st) p \<longrightarrow>
            \<not> path_exists (snd (process_repository st e process_directory_files url w')) p)))"
proof (intro conjI impI allI)
  assume d: "d \<noteq> []"
  show "\<not> is_dir (snd (bg_worker fp st e items paths (Some d) w)) d"
    unfolding bg_worker_world[OF d] by (rule cleanup_directory_removes)
  fix p assume "is_dir (snd (bg_worker_try fp st e items paths (Some d) w)) d" and "p = d \<or> below d p"
  then show "\<not> path_exists (snd (bg_worker fp st e items paths (Some d) w)) p"
    unfolding bg_worker_world[OF d] by (rule cleanup_removes_tree)
next
  assume v: "validate_git_url e url"
  show "\<not> is_dir (snd (process_repository st e process_directory_files url w')) (temp_repo_dir st)"
    unfolding process_repository_world[OF v] by (rule cleanup_directory_removes)
  fix p assume "is_dir (snd (process_repository_try st e process_directory_files url w')) (temp_repo_dir st)"
    and "p = temp_repo_dir st \<or> below (temp_repo_dir st) p"
  then show "\<not> path_exists (snd (process_repository st e process_directory_files url w')) p"
    unfolding process_repository_world[OF v] by (rule cleanup_removes_tree)
qed

lemmas fs_eval = path_join_def dirname_def rstrip_slash_def basename_def path_exists_def is_dir_def
  ensure_directory_def rmtree_def below_def cleanup_directory_def finally_cleanup_def write_file_def
  remove_partial_def draw_uuid_def safe_filename_def unsafe_chars_def

lemmas processor_eval = process_files_concurrent_def batch_tally_def gather_files_def
  process_single_file_async_def process_single_file_try_def validate_file_size_def getsize_def
  load_document_def create_text_splitter_def get_language_from_extension_def language_map_def
  add_file_metadata_def text_file_defs

lemma safe_name_a_py: "safe_filename ''a.py'' = ''a.py''" by (simp add: safe_filename_def unsafe_chars_def)

lemma upload_1_dir: "path_join ''./temp_files'' ''upload_1'' = ''./temp_files/upload_1''" by (simp add: path_join_def)

lemma upload_1_a_py: "path_join ''./temp_files/upload_1'' ''a.py'' = ''./temp_files/upload_1/a.py''" by (simp add: path_join_def)

lemma dirname_upload_1_a_py: "dirname ''./temp_files/upload_1/a.py'' = ''./temp_files/upload_1''" by (simp add: dirname_def rstrip_slash_def)

lemma text_upload_1_a_py: "is_text_file ''./temp_files/upload_1/a.py''" by (simp add: text_file_defs)

lemma language_upload_1_a_py: "get_language_from_extension ''./temp_files/upload_1/a.py'' = PYTHON"
  by (simp add: get_language_from_extension_def language_map_def lower_def lower_char_def ascii_upper_def ascii_lower_def)

lemma world_upload_fields:
  "fs world_upload = [(''.'', Dir), (''./temp_files/upload_0'', Dir), (''./temp_files/upload_0/big.py'', File ''y = 2'')]"
  "read_only world_upload = []" "uuid_draws world_upload = 1"
  by (simp_all add: world_upload_def world0_def)

lemma save1:
  "save_items ''./temp_files/upload_1'' [(''a.py'', ''x = 1'')]
      ([], world_upload\<lparr>fs := fs world_upload @ [(''./temp_files/upload_1'', Dir)], uuid_draws := 2\<rparr>)
   = ([''./temp_files/upload_1/a.py''],
      world_upload\<lparr>fs := fs world_upload @ [(''./temp_files/upload_1'', Dir), (''./temp_files/upload_1/a.py'', File ''x = 1'')],
                     uuid_draws := 2\<rparr>)"
  by (simp add: safe_name_a_py upload_1_a_py dirname_upload_1_a_py world_upload_fields path_exists_def write_file_def is_dir_def Let_def)

lemma one_file:
  assumes "map_of (fs w) ''./temp_files/upload_1/a.py'' = Some (File ''x = 1'')"
  shows "process_single_file_async settings env0 w ''./temp_files/upload_1/a.py'' =
     \<lparr>file_path = ''./temp_files/upload_1/a.py'', success = True,
      documents = [add_file_metadata env0 ''./temp_files/upload_1/a.py'' \<lparr>page_content = ''x = 1'', doc_metadata = []\<rparr>],
      fr_error_message = None\<rparr>"
  using assms
  by (simp add: process_single_file_async_def process_single_file_try_def text_upload_1_a_py validate_file_size_def
      getsize_def load_document_def create_text_splitter_def env0_fields settings_fields)

lemma batch1:
  assumes "map_of (fs w) ''./temp_files/upload_1/a.py'' = Some (File ''x = 1'')"
  shows "process_files_concurrent settings env0 w [''./temp_files/upload_1/a.py''] =
     \<lparr>pr_success = True, documents_processed = 1, documents_failed = 0, processing_time = 0,
      pr_error_message = None\<rparr>"
  by (simp add: process_files_concurrent_def batch_tally_def gather_files_def one_file[OF assms]
      env0_fields Let_def)

lemma bytes1:
  "process_uploaded_file_bytes settings env0 [(''a.py'', ''x = 1'')] world_upload =
     (Inr \<lparr>total_files = 1, processed_files = 1, skipped_files = 0, failed_files_stat = 0,
           processing_time_seconds = 0\<rparr>, world_upload\<lparr>uuid_draws := 2\<rparr>)"
proof -
  let ?w2 = "world_upload\<lparr>fs := fs world_upload @ [(''./temp_files/upload_1'', Dir), (''./temp_files/upload_1/a.py'', File ''x = 1'')],
                     uuid_draws := 2\<rparr>"
  have d: "draw_uuid env0 world_upload = (''1'', world_upload\<lparr>uuid_draws := 2\<rparr>)"
    by (simp add: draw_uuid_def env0_fields world_upload_fields str_nat_digits)
  have e: "ensure_directory ''./temp_files/upload_1'' (world_upload\<lparr>uuid_draws := 2\<rparr>)
      = world_upload\<lparr>fs := fs world_upload @ [(''./temp_files/upload_1'', Dir)], uuid_draws := 2\<rparr>"
    by (simp add: ensure_directory_def path_exists_def world_upload_fields)
  have m: "map_of (fs ?w2) ''./temp_files/upload_1/a.py'' = Some (File ''x = 1'')"
    by (simp add: world_upload_fields)
  have c: "cleanup_directory ''./temp_files/upload_1'' ?w2 = (None, world_upload\<lparr>uuid_draws := 2\<rparr>)"
    by (simp add: cleanup_directory_def rmtree_def below_def world_upload_fields world_upload_def world0_def)
  show ?thesis
    by (simp add: process_uploaded_file_bytes_def d settings_fields upload_1_dir e save1 batch1[OF m]
        finally_cleanup_def c Let_def del: save_items.simps)
qed

lemma paths1:
  "process_uploaded_file_paths settings env0 [''./temp_files/upload_0/big.py''] (world_upload\<lparr>uuid_draws := 2\<rparr>)
    = (Inr \<lparr>total_files = 1, processed_files = 1, skipped_files = 0, failed_files_stat = 0,
           processing_time_seconds = 0\<rparr>, world_upload\<lparr>uuid_draws := 2\<rparr>)"
  by (simp add: process_uploaded_file_paths_def process_files_concurrent_def batch_tally_def gather_files_def
      process_single_file_async_def process_single_file_try_def text_file_defs validate_file_size_def
      getsize_def load_document_def create_text_splitter_def env0_fields settings_fields world_upload_fields)

lemma worker_try1:
  "bg_worker_try (file_processor settings env0) settings env0 [(''a.py'', ''x = 1'')]
        [''./temp_files/upload_0/big.py''] (Some ''./temp_files/upload_0'') world_upload
      = (None, world_upload\<lparr>uuid_draws := 2\<rparr>)"
  by (simp add: bg_worker_try_def bg_worker_items_def bg_worker_paths_def file_processor_def raised_def
        bytes1 paths1)

lemma worker1:
  "bg_worker (file_processor settings env0) settings env0 [(''a.py'', ''x = 1'')]
        [''./temp_files/upload_0/big.py''] (Some ''./temp_files/upload_0'') world_upload
      = (None, world_upload\<lparr>fs := [(''.'', Dir)], uuid_draws := 2\<rparr>)"
proof -
  have c: "cleanup_directory ''./temp_files/upload_0'' (world_upload\<lparr>uuid_draws := 2\<rparr>)
      = (None, world_upload\<lparr>fs := [(''.'', Dir)], uuid_draws := 2\<rparr>)"
    by (simp add: cleanup_directory_def rmtree_def below_def world_upload_fields)
  show ?thesis
    by (simp add: bg_worker_def worker_try1 c)
qed

lemma world_stale_fields:
  "fs world_stale = [(''.'', Dir), (''./temp_repo'', Dir), (''./temp_repo/old.txt'', File ''old'')]"
  by (simp add: world_stale_def world0_def)

lemma valid_github: "validate_git_url env0 ''https://github.com/o/r.git''"
  by (simp add: validate_git_url_def env0_def valid_schemes_def valid_hosts_def)

lemma repo_try1:
  "process_repository_try settings env0 failing_directory_processing ''https://github.com/o/r.git'' world_stale
     = (Inl (HTTPException 500 ''Repository processing failed: boom''),
        world_stale\<lparr>fs := [(''.'', Dir), (''./temp_repo'', Dir), (''./temp_repo/README.md'', File ''# hi'')]\<rparr>)"
proof -
  let ?w1 = "world_stale\<lparr>fs := [(''.'', Dir)]\<rparr>"
  let ?w3 = "world_stale\<lparr>fs := [(''.'', Dir), (''./temp_repo'', Dir), (''./temp_repo/README.md'', File ''# hi'')]\<rparr>"
  have c1: "cleanup_directory ''./temp_repo'' world_stale = (None, ?w1)"
    by (simp add: cleanup_directory_def rmtree_def below_def world_stale_fields)
  have dn: "dirname ''./temp_repo'' = ''.''" by (simp add: dirname_def rstrip_slash_def)
  have e: "ensure_directory ''.'' ?w1 = ?w1" by (simp add: ensure_directory_def path_exists_def)
  have cl: "clone_from env0 ''https://github.com/o/r.git'' ''./temp_repo'' ?w1 = (True, ?w3)"
    by (simp add: env0_def)
  show ?thesis
    by (simp add: process_repository_try_def settings_fields c1 dn e cl
        failing_directory_processing_def str_exn_def Let_def)
qed

lemma repo1:
  "process_repository settings env0 failing_directory_processing ''https://github.com/o/r.git'' world_stale
     = (Inl (HTTPException 500 ''Repository processing failed: boom''), world_stale\<lparr>fs := [(''.'', Dir)]\<rparr>)"
proof -
  let ?w1 = "world_stale\<lparr>fs := [(''.'', Dir)]\<rparr>"
  let ?w3 = "world_stale\<lparr>fs := [(''.'', Dir), (''./temp_repo'', Dir), (''./temp_repo/README.md'', File ''# hi'')]\<rparr>"
  have c2: "cleanup_directory ''./temp_repo'' ?w3 = (None, ?w1)"
    by (simp add: cleanup_directory_def rmtree_def below_def)
  show ?thesis
    by (simp add: process_repository_def valid_github repo_try1 settings_fields finally_cleanup_def c2)
qed

text \<open>
  A worker that succeeds, and a repository run whose processing raises: the spilled upload
  and the cloned file are gone with their directories.
\<close>

theorem C8_witness:
  "''./temp_files/upload_0'' \<noteq> []
   \<and> is_dir (snd (bg_worker_try (file_processor settings env0) settings env0 [(''a.py'', ''x = 1'')]
        [''./temp_files/upload_0/big.py''] (Some ''./temp_files/upload_0'') world_upload)) ''./temp_files/upload_0''
   \<and> path_exists (snd (bg_worker_try (file_processor settings env0) settings env0 [(''a.py'', ''x = 1'')]
        [''./temp_files/upload_0/big.py''] (Some ''./temp_files/upload_0'') world_upload)) ''./temp_files/upload_0/big.py''
   \<and> below ''./temp_files/upload_0'' ''./temp_files/upload_0/big.py''
   \<and> bg_worker (file_processor settings env0) settings env0 [(''a.py'', ''x = 1'')]
        [''./temp_files/upload_0/big.py''] (Some ''./temp_files/upload_0'') world_upload
      = (None, world_upload\<lparr>fs := [(''.'', Dir)], uuid_draws := 2\<rparr>)
   \<and> \<not> is_dir (snd (bg_worker (file_processor settings env0) settings env0 [(''a.py'', ''x = 1'')]
        [''./temp_files/upload_0/big.py''] (Some ''./temp_files/upload_0'') world_upload)) ''./temp_files/upload_0''
   \<and> \<not> path_exists (snd (bg_worker (file_processor settings env0) settings env0 [(''a.py'', ''x = 1'')]
        [''./temp_files/upload_0/big.py''] (Some ''./temp_files/upload_0'') world_upload)) ''./temp_files/upload_0/big.py''
   \<and> validate_git_url env0 ''https://github.com/o/r.git''
   \<and> is_dir (snd (process_repository_try settings env0 failing_directory_processing ''https://github.com/o/r.git'' world_stale))
        (temp_repo_dir settings)
   \<and> path_exists (snd (process_repository_try settings env0 failing_directory_processing ''https://github.com/o/r.git'' world_stale))
        ''./temp_repo/README.md''
   \<and> below (temp_repo_dir settings) ''./temp_repo/README.md''
   \<and> process_repository settings env0 failing_directory_processing ''https://github.com/o/r.git'' world_stale
      = (Inl (HTTPException 500 ''Repository processing failed: boom''), world_stale\<lparr>fs := [(''.'', Dir)]\<rparr>)
   \<and> \<not> is_dir (snd (process_repository settings env0 failing_directory_processing ''https://github.com/o/r.git'' world_stale))
        (temp_repo_dir settings)
   \<and> \<not> path_exists (snd (process_repository settings env0 failing_directory_processing ''https://github.com/o/r.git'' world_stale))
        ''./temp_repo/README.md''"
proof -
  have d: "is_dir (snd (bg_worker_try (file_processor settings env0) settings env0 [(''a.py'', ''x = 1'')]
        [''./temp_files/upload_0/big.py''] (Some ''./temp_files/upload_0'') world_upload)) ''./temp_files/upload_0''"
    by (simp add: worker_try1 is_dir_def world_upload_fields)
  have f: "path_exists (snd (bg_worker_try (file_processor settings env0) settings env0 [(''a.py'', ''x = 1'')]
        [''./temp_files/upload_0/big.py''] (Some ''./temp_files/upload_0'') world_upload)) ''./temp_files/upload_0/big.py''"
    by (simp add: worker_try1 path_exists_def world_upload_fields)
  have b: "below ''./temp_files/upload_0'' ''./temp_files/upload_0/big.py''" by (simp add: below_def)
  have d': "is_dir (snd (process_repository_try settings env0 failing_directory_processing ''https://github.com/o/r.git'' world_stale))
        (temp_repo_dir settings)"
    by (simp add: repo_try1 is_dir_def settings_fields)
  have f': "path_exists (snd (process_repository_try settings env0 failing_directory_processing ''https://github.com/o/r.git'' world_stale))
        ''./temp_repo/README.md''"
    by (simp add: repo_try1 path_exists_def)
  have b': "below (temp_repo_dir settings) ''./temp_repo/README.md''" by (simp add: below_def settings_fields)
  from C8_scratch_directories_removed_on_exit[of "''./temp_files/upload_0''" "file_processor settings env0"
      settings env0 "[(''a.py'', ''x = 1'')]" "[''./temp_files/upload_0/big.py'']" world_upload
      "''https://github.com/o/r.git''" failing_directory_processing world_stale]
    valid_github d f b d' f' b' worker1 repo1 show ?thesis by simp
qed

end
